theory Spec2Isabelle
  imports Complex_Main "HOL-Library.Multiset" "HOL-Library.Log_Nat"
begin

section \<open>Numbers, exceptions and arrays\<close>

text \<open>
  The routines of \<^verbatim>\<open>pyblp/utilities/statistics.py\<close> work on NumPy arrays of
  double-precision numbers. The entries are modelled by \<open>fnum\<close>: a real number, one of the
  two infinities, or the not-a-number value. The operations \<open>+\<close>, \<open>-\<close>, \<open>*\<close> and \<open>/\<close> of
  \<open>fnum\<close> are the exact ones on finite values (no rounding, no overflow, one zero); on the
  special values they follow IEEE 754 as NumPy does with its warnings left on (a division
  by zero is an infinity or NaN, never an exception). An operation of the program is the
  exact one followed by the rounding \<open>rnd\<close> of the section on double precision, where the
  routines whose results depend on the rounding are given with the arithmetic as a
  parameter.
\<close>

datatype fnum = NaN | PInf | MInf | Fin real

instantiation fnum :: "{zero, one, plus, uminus, minus, times, inverse}"
begin

definition zero_fnum :: fnum where "zero_fnum = Fin 0"

definition one_fnum :: fnum where "one_fnum = Fin 1"

fun plus_fnum :: "fnum \<Rightarrow> fnum \<Rightarrow> fnum" where
  "plus_fnum (Fin a) (Fin b) = Fin (a + b)"
| "plus_fnum NaN y = NaN"
| "plus_fnum x NaN = NaN"
| "plus_fnum PInf MInf = NaN"
| "plus_fnum MInf PInf = NaN"
| "plus_fnum PInf y = PInf"
| "plus_fnum MInf y = MInf"
| "plus_fnum (Fin a) y = y"

fun uminus_fnum :: "fnum \<Rightarrow> fnum" where
  "uminus_fnum NaN = NaN"
| "uminus_fnum PInf = MInf"
| "uminus_fnum MInf = PInf"
| "uminus_fnum (Fin a) = Fin (- a)"

definition minus_fnum :: "fnum \<Rightarrow> fnum \<Rightarrow> fnum" where
  "minus_fnum x y = (x::fnum) + (- y)"

fun times_fnum :: "fnum \<Rightarrow> fnum \<Rightarrow> fnum" where
  "times_fnum (Fin a) (Fin b) = Fin (a * b)"
| "times_fnum NaN y = NaN"
| "times_fnum x NaN = NaN"
| "times_fnum PInf PInf = PInf"
| "times_fnum PInf MInf = MInf"
| "times_fnum MInf PInf = MInf"
| "times_fnum MInf MInf = PInf"
| "times_fnum PInf (Fin b) = (if b = 0 then NaN else if 0 < b then PInf else MInf)"
| "times_fnum MInf (Fin b) = (if b = 0 then NaN else if 0 < b then MInf else PInf)"
| "times_fnum (Fin a) PInf = (if a = 0 then NaN else if 0 < a then PInf else MInf)"
| "times_fnum (Fin a) MInf = (if a = 0 then NaN else if 0 < a then MInf else PInf)"

fun divide_fnum :: "fnum \<Rightarrow> fnum \<Rightarrow> fnum" where
  "divide_fnum (Fin a) (Fin b) =
     (if b = 0 then (if a = 0 then NaN else if 0 < a then PInf else MInf) else Fin (a / b))"
| "divide_fnum NaN y = NaN"
| "divide_fnum x NaN = NaN"
| "divide_fnum (Fin a) y = Fin 0"
| "divide_fnum PInf (Fin b) = (if 0 \<le> b then PInf else MInf)"
| "divide_fnum MInf (Fin b) = (if 0 \<le> b then MInf else PInf)"
| "divide_fnum x y = NaN"

fun inverse_fnum :: "fnum \<Rightarrow> fnum" where
  "inverse_fnum NaN = NaN"
| "inverse_fnum (Fin b) = (if b = 0 then PInf else Fin (1 / b))"
| "inverse_fnum x = Fin 0"

instance ..

end

instance fnum :: comm_monoid_add
proof
  fix a b c :: fnum
  show "a + b + c = a + (b + c)" by (cases a; cases b; cases c; simp)
  show "a + b = b + a" by (cases a; cases b; simp)
  show "0 + a = a" by (cases a; simp add: zero_fnum_def)
qed

text \<open>\<^verbatim>\<open>np.sqrt\<close> under \<^verbatim>\<open>np.errstate(invalid='ignore')\<close>: NaN for a negative argument.\<close>

fun fsqrt :: "fnum \<Rightarrow> fnum" where
  "fsqrt (Fin a) = (if a < 0 then NaN else Fin (sqrt a))"
| "fsqrt PInf = PInf"
| "fsqrt x = NaN"

definition isnan :: "fnum \<Rightarrow> bool" where
  "isnan x = (x = NaN)"

fun is_finite :: "fnum \<Rightarrow> bool" where
  "is_finite (Fin a) = True"
| "is_finite x = False"

text \<open>
  Exceptions are values. \<open>LinAlgError\<close> is \<^verbatim>\<open>scipy.linalg.LinAlgError\<close>, NumPy's class,
  which is a subclass of \<^verbatim>\<open>ValueError\<close>. \<open>OtherException\<close> stands for any exception that
  no handler of the source names. A handler \<^verbatim>\<open>except ValueError\<close> catches the exceptions
  of \<open>isinstance_ValueError\<close>, so a \<open>LinAlgError\<close> too; a handler
  \<^verbatim>\<open>except scipy.linalg.LinAlgError\<close> catches those of \<open>isinstance_LinAlgError\<close>.
\<close>

datatype exn = ValueError | LinAlgError | IndexError | OtherException

fun isinstance_ValueError :: "exn \<Rightarrow> bool" where
  "isinstance_ValueError ValueError = True"
| "isinstance_ValueError LinAlgError = True"
| "isinstance_ValueError e = False"

fun isinstance_LinAlgError :: "exn \<Rightarrow> bool" where
  "isinstance_LinAlgError LinAlgError = True"
| "isinstance_LinAlgError e = False"

type_synonym 'a outcome = "exn + 'a"

definition seq :: "'a outcome \<Rightarrow> ('a \<Rightarrow> 'b outcome) \<Rightarrow> 'b outcome" where
  "seq r f = (case r of Inl e \<Rightarrow> Inl e | Inr v \<Rightarrow> f v)"

text \<open>
  A two-dimensional array is the list of its rows together with its number of columns
  (which the rows alone do not determine when there are none). One-dimensional arrays are
  plain lists.
\<close>

record 'a mat =
  ncols :: nat
  rows :: "'a list list"

definition nrows :: "'a mat \<Rightarrow> nat" where
  "nrows A = length (rows A)"

definition rectangular :: "'a mat \<Rightarrow> bool" where
  "rectangular A = list_all (\<lambda>r. length r = ncols A) (rows A)"

definition square :: "'a mat \<Rightarrow> bool" where
  "square A = (rectangular A \<and> nrows A = ncols A)"

definition finite_mat :: "fnum mat \<Rightarrow> bool" where
  "finite_mat A = list_all (list_all is_finite) (rows A)"

definition col :: "'a mat \<Rightarrow> nat \<Rightarrow> 'a list" where
  "col A j = map (\<lambda>r. r ! j) (rows A)"

text \<open>\<^verbatim>\<open>A.T\<close>\<close>

definition T :: "'a mat \<Rightarrow> 'a mat" where
  "T A = \<lparr>ncols = nrows A, rows = map (col A) [0..<ncols A]\<rparr>"

definition dot :: "fnum list \<Rightarrow> fnum list \<Rightarrow> fnum" where
  "dot xs ys = sum_list (map2 (*) xs ys)"

text \<open>The array with \<open>n\<close> rows and \<open>m\<close> columns whose entry \<open>(i, j)\<close> is \<open>f i j\<close>.\<close>

definition mk_mat :: "nat \<Rightarrow> nat \<Rightarrow> (nat \<Rightarrow> nat \<Rightarrow> 'a) \<Rightarrow> 'a mat" where
  "mk_mat n m f = \<lparr>ncols = m, rows = map (\<lambda>i. map (\<lambda>j. f i j) [0..<m]) [0..<n]\<rparr>"

text \<open>\<^verbatim>\<open>A @ B\<close>: a \<open>ValueError\<close> when the inner dimensions differ.\<close>

definition mat_mult :: "fnum mat \<Rightarrow> fnum mat \<Rightarrow> fnum mat" where
  "mat_mult A B =
     \<lparr>ncols = ncols B, rows = map (\<lambda>r. map (\<lambda>j. dot r (col B j)) [0..<ncols B]) (rows A)\<rparr>"

definition matmul :: "fnum mat \<Rightarrow> fnum mat \<Rightarrow> fnum mat outcome" where
  "matmul A B = (if ncols A = nrows B then Inr (mat_mult A B) else Inl ValueError)"

text \<open>A further factor of a chain \<^verbatim>\<open>A @ B @ C\<close>, which Python evaluates from the left.\<close>

definition mm :: "fnum mat outcome \<Rightarrow> fnum mat \<Rightarrow> fnum mat outcome" where
  "mm r B = seq r (\<lambda>A. matmul A B)"

text \<open>\<^verbatim>\<open>np.full_like(A, v)\<close>\<close>

definition full_like :: "'a mat \<Rightarrow> 'b \<Rightarrow> 'b mat" where
  "full_like A v = \<lparr>ncols = ncols A, rows = map (map (\<lambda>_. v)) (rows A)\<rparr>"

text \<open>\<^verbatim>\<open>np.diag\<close> of a two-dimensional array (also \<^verbatim>\<open>A.diagonal()\<close>) and of a
  one-dimensional one.\<close>

definition diagonal :: "'a mat \<Rightarrow> 'a list" where
  "diagonal A = map (\<lambda>i. rows A ! i ! i) [0..<min (nrows A) (ncols A)]"

definition diag_matrix :: "fnum list \<Rightarrow> fnum mat" where
  "diag_matrix v =
     \<lparr>ncols = length v,
      rows = map (\<lambda>i. map (\<lambda>j. if i = j then v ! i else 0) [0..<length v]) [0..<length v]\<rparr>"

definition identity :: "nat \<Rightarrow> fnum mat" where
  "identity n = diag_matrix (replicate n 1)"

text \<open>
  Elementwise operations broadcast their operands: along each axis the two lengths are
  equal or one of them is 1 (that operand is then repeated), else \<open>ValueError\<close>.
\<close>

definition bdim :: "nat \<Rightarrow> nat \<Rightarrow> nat option" where
  "bdim a b = (if a = b then Some a else if a = 1 then Some b else if b = 1 then Some a else None)"

definition bget :: "'a mat \<Rightarrow> nat \<Rightarrow> nat \<Rightarrow> 'a" where
  "bget A i j = rows A ! (if nrows A = 1 then 0 else i) ! (if ncols A = 1 then 0 else j)"

definition broadcast :: "('a \<Rightarrow> 'b \<Rightarrow> 'c) \<Rightarrow> 'a mat \<Rightarrow> 'b mat \<Rightarrow> 'c mat outcome" where
  "broadcast f A B =
     (case (bdim (nrows A) (nrows B), bdim (ncols A) (ncols B)) of
        (Some n, Some m) \<Rightarrow> Inr (mk_mat n m (\<lambda>i j. f (bget A i j) (bget B i j)))
      | _ \<Rightarrow> Inl ValueError)"

text \<open>\<^verbatim>\<open>A -= B\<close>: in place, so the broadcast shape must be the shape of \<open>A\<close>.\<close>

definition isub :: "fnum mat \<Rightarrow> fnum mat \<Rightarrow> fnum mat outcome" where
  "isub A B =
     seq (broadcast (-) A B)
       (\<lambda>C. if nrows C = nrows A \<and> ncols C = ncols A then Inr C else Inl ValueError)"


text \<open>\<^verbatim>\<open>np.c_[v]\<close> and \<^verbatim>\<open>v[:, np.newaxis]\<close>: a single column.\<close>

definition column_vector :: "'a list \<Rightarrow> 'a mat" where
  "column_vector v = \<lparr>ncols = 1, rows = map (\<lambda>x. [x]) v\<rparr>"

definition map_mat :: "('a \<Rightarrow> 'b) \<Rightarrow> 'a mat \<Rightarrow> 'b mat" where
  "map_mat f A = \<lparr>ncols = ncols A, rows = map (map f) (rows A)\<rparr>"


text \<open>\<^verbatim>\<open>np.diagflat(A)\<close>\<close>

definition diagflat :: "fnum mat \<Rightarrow> fnum mat" where
  "diagflat A = diag_matrix (concat (rows A))"

text \<open>\<^verbatim>\<open>np.isnan(A).any()\<close>\<close>

definition any_isnan :: "fnum mat \<Rightarrow> bool" where
  "any_isnan A = list_ex (list_ex isnan) (rows A)"

text \<open>\<^verbatim>\<open>A[idx]\<close> with a list of row numbers: \<open>IndexError\<close> when one is out of range.\<close>

definition take_rows :: "'a mat \<Rightarrow> nat list \<Rightarrow> 'a mat outcome" where
  "take_rows A idx =
     (if list_all (\<lambda>i. i < nrows A) idx
      then Inr \<lparr>ncols = ncols A, rows = map (\<lambda>i. rows A ! i) idx\<rparr>
      else Inl IndexError)"

text \<open>
  \<^verbatim>\<open>v.argsort()\<close>: the positions of \<open>v\<close> in ascending order of their values. Equal
  values are listed here in their order of appearance; NumPy's default sort may list them
  in another order.
\<close>

definition argsort :: "'b::linorder list \<Rightarrow> nat list" where
  "argsort v = sort_key (\<lambda>i. v ! i) [0..<length v]"

text \<open>
  \<^verbatim>\<open>np.unique(v, return_index=True, return_inverse=True, return_counts=True)[1:]\<close>:
  for the sorted distinct values of \<open>v\<close>, the position of the first occurrence of each in
  \<open>v\<close>; for each position of \<open>v\<close>, the number of its value among the distinct values;
  and how often each distinct value occurs.
\<close>

definition first_index :: "'a list \<Rightarrow> 'a \<Rightarrow> nat" where
  "first_index xs v = length (takeWhile (\<lambda>x. x \<noteq> v) xs)"

definition unique_info :: "'b::linorder list \<Rightarrow> nat list \<times> nat list \<times> nat list" where
  "unique_info v =
     (let uniq = sort (remdups v)
      in (map (first_index v) uniq, map (first_index uniq) v, map (count_list v) uniq))"

text \<open>
  \<^verbatim>\<open>np.add.reduce\<close> of a non-empty block of rows and \<^verbatim>\<open>np.add.reduceat(A, indices)\<close>
  along the rows: entry \<open>k\<close> is the sum of the rows from \<open>indices[k]\<close> up to (not
  including) \<open>indices[k+1]\<close>, or the end for the last one; it is the single row
  \<open>indices[k]\<close> when that range is empty; \<open>IndexError\<close> when an index is not a row.
\<close>

definition add_reduce :: "fnum list list \<Rightarrow> fnum list" where
  "add_reduce block = foldl (map2 (+)) (hd block) (tl block)"

definition add_reduceat :: "fnum mat \<Rightarrow> nat list \<Rightarrow> fnum mat outcome" where
  "add_reduceat A indices =
     (if list_all (\<lambda>i. i < nrows A) indices
      then Inr \<lparr>ncols = ncols A,
                rows = map (\<lambda>k. let lo = indices ! k;
                                   hi = (if k + 1 < length indices then indices ! (k + 1) else nrows A)
                               in if lo < hi then add_reduce (take (hi - lo) (drop lo (rows A)))
                                  else rows A ! lo)
                         [0..<length indices]\<rparr>
      else Inl IndexError)"

section \<open>The linear-algebra library\<close>

text \<open>
  \<^verbatim>\<open>scipy.linalg.inv\<close> and \<^verbatim>\<open>scipy.linalg.pinv\<close> are not part of the program: they
  are parameters of the model, functions from a matrix to a returned matrix or a raised
  exception.
\<close>

record scipy_linalg =
  scipy_inv :: "fnum mat \<Rightarrow> fnum mat outcome"
  scipy_pinv :: "fnum mat \<Rightarrow> fnum mat outcome"

text \<open>
  What the library's documentation says of \<^verbatim>\<open>inv\<close> at one matrix, read with exact
  arithmetic: \<open>ValueError\<close> if the matrix is not square or holds an infinity or a NaN
  (\<^verbatim>\<open>check_finite\<close>), \<open>LinAlgError\<close> if it is singular, its inverse otherwise. The
  library in double precision, which rounds, is in the section on double precision.
\<close>

definition right_inverse :: "fnum mat \<Rightarrow> fnum mat \<Rightarrow> bool" where
  "right_inverse M R =
     (rectangular R \<and> nrows R = nrows M \<and> ncols R = ncols M \<and>
      matmul M R = Inr (identity (nrows M)))"

definition invertible :: "fnum mat \<Rightarrow> bool" where
  "invertible M = (\<exists>R. right_inverse M R)"

definition scipy_inv_spec :: "(fnum mat \<Rightarrow> fnum mat outcome) \<Rightarrow> fnum mat \<Rightarrow> bool" where
  "scipy_inv_spec f M =
     (if \<not> square M \<or> \<not> finite_mat M then f M = Inl ValueError
      else if invertible M then (\<exists>R. f M = Inr R \<and> right_inverse M R)
      else f M = Inl LinAlgError)"

text \<open>A library for matrices with one entry, with exact arithmetic.\<close>

definition inv_1x1 :: "fnum mat \<Rightarrow> fnum mat outcome" where
  "inv_1x1 M =
     (case rows M of
        [[Fin a]] \<Rightarrow>
          if ncols M \<noteq> 1 then Inl ValueError
          else if a = 0 then Inl LinAlgError
          else Inr \<lparr>ncols = 1, rows = [[Fin (1 / a)]]\<rparr>
      | _ \<Rightarrow> Inl ValueError)"

definition pinv_1x1 :: "fnum mat \<Rightarrow> fnum mat outcome" where
  "pinv_1x1 M =
     (case rows M of
        [[Fin a]] \<Rightarrow>
          if ncols M \<noteq> 1 then Inl ValueError
          else Inr \<lparr>ncols = 1, rows = [[Fin (if a = 0 then 0 else 1 / a)]]\<rparr>
      | _ \<Rightarrow> Inl ValueError)"

definition linalg_1x1 :: scipy_linalg where
  "linalg_1x1 = \<lparr>scipy_inv = inv_1x1, scipy_pinv = pinv_1x1\<rparr>"

section \<open>invert\<close>

text \<open>
  \<^verbatim>\<open>
  def invert(matrix):
      try:
          return scipy.linalg.inv(matrix), None
      except ValueError:
          return np.full_like(matrix, np.nan), None
      except scipy.linalg.LinAlgError:
          try:
              return scipy.linalg.pinv(matrix), "computing the Moore-Penrose pseudo inverse"
          except scipy.linalg.LinAlgError:
              return (np.diag(1 / np.diag(matrix)), "inverting only the variance terms, ...")
  \<close>
  The second component is the description of the approximation: \<open>None\<close>, or one of the
  two strings. The handlers are tried in the order of the source. The first one catches
  every \<open>ValueError\<close>, so also the \<open>LinAlgError\<close> of a singular matrix: the second handler,
  with the pseudo-inverse and the diagonal, is never reached.
\<close>

definition pinv_approximation :: string where
  "pinv_approximation = ''computing the Moore-Penrose pseudo inverse''"

definition diag_approximation :: string where
  "diag_approximation =
     ''inverting only the variance terms, since the Moore-Penrose pseudo inverse could not be computed''"

definition invert :: "scipy_linalg \<Rightarrow> fnum mat \<Rightarrow> (fnum mat \<times> string option) outcome" where
  "invert lib matrix =
     (case scipy_inv lib matrix of
        Inr inverted \<Rightarrow> Inr (inverted, None)
      | Inl e \<Rightarrow>
          if isinstance_ValueError e then Inr (full_like matrix NaN, None)
          else if isinstance_LinAlgError e then
            (case scipy_pinv lib matrix of
               Inr inverted \<Rightarrow> Inr (inverted, Some pinv_approximation)
             | Inl e' \<Rightarrow>
                 if isinstance_LinAlgError e'
                 then Inr (diag_matrix (map (\<lambda>d. 1 / d) (diagonal matrix)),
                           Some diag_approximation)
                 else Inl e')
          else Inl e)"

section \<open>Error signals\<close>

text \<open>
  The routines collect error signals in a set instead of raising. A signal is either a
  closure \<^verbatim>\<open>lambda: exceptions.K(approximation)\<close>, which builds the error from the value
  that the variable \<^verbatim>\<open>approximation\<close> has when the routine returns, or an exception class
  \<^verbatim>\<open>exceptions.K\<close> added as it is.
\<close>

datatype error_kind =
    LinearParameterCovariancesInversionError
  | GMMParameterCovariancesInversionError
  | GMMMomentCovariancesInversionError
  | AbsorptionConvergenceError
  | InvalidWeightsError
  | InvalidCovariancesError

datatype error_signal = Deferred error_kind "string option" | ErrorClass error_kind

text \<open>Truth value of \<^verbatim>\<open>approximation\<close>, which is \<open>None\<close> or a string.\<close>

definition truthy :: "string option \<Rightarrow> bool" where
  "truthy a = (a \<noteq> None \<and> a \<noteq> Some [])"

section \<open>IV\<close>

text \<open>
  \<^verbatim>\<open>
  class IV(object):
      def __init__(self, X, Z, W):
          self.errors = set()
          self.X = X; self.Z = Z; self.W = W
          self.covariances, approximation = invert(self.X.T @ self.Z @ self.W @ self.Z.T @ self.X)
          if approximation:
              self.errors.add(lambda: exceptions.LinearParameterCovariancesInversionError(approximation))

      def estimate(self, y, compute_residuals=True):
          parameters = self.covariances @ self.X.T @ self.Z @ self.W @ self.Z.T @ y
          return (parameters, y - self.X @ parameters) if compute_residuals else parameters
  \<close>
  \<open>estimate\<close> returns the object's state after the call together with its result, which is
  a pair of arrays or a single array.
\<close>

record IV =
  iv_errors :: "error_signal set"
  iv_X :: "fnum mat"
  iv_Z :: "fnum mat"
  iv_W :: "fnum mat"
  iv_covariances :: "fnum mat"

definition IV_init :: "scipy_linalg \<Rightarrow> fnum mat \<Rightarrow> fnum mat \<Rightarrow> fnum mat \<Rightarrow> IV outcome" where
  "IV_init lib X Z W =
     seq (mm (mm (mm (matmul (T X) Z) W) (T Z)) X) (\<lambda>A.
     seq (invert lib A) (\<lambda>(covariances, approximation).
     Inr \<lparr>iv_errors =
            (if truthy approximation
             then {Deferred LinearParameterCovariancesInversionError approximation} else {}),
          iv_X = X, iv_Z = Z, iv_W = W, iv_covariances = covariances\<rparr>))"

datatype estimate_result = Parameters "fnum mat" | ParametersResiduals "fnum mat" "fnum mat"

definition estimate :: "IV \<Rightarrow> fnum mat \<Rightarrow> bool \<Rightarrow> (IV \<times> estimate_result) outcome" where
  "estimate self y compute_residuals =
     seq (mm (mm (mm (mm (matmul (iv_covariances self) (T (iv_X self))) (iv_Z self)) (iv_W self))
                (T (iv_Z self))) y) (\<lambda>parameters.
     if compute_residuals
     then seq (matmul (iv_X self) parameters) (\<lambda>fitted.
          seq (broadcast (-) y fitted) (\<lambda>residuals.
          Inr (self, ParametersResiduals parameters residuals)))
     else Inr (self, Parameters parameters))"

section \<open>iteratively\_demean\<close>

text \<open>
  \<^verbatim>\<open>
  def iteratively_demean(matrix, ids, iteration):
      errors = set()
      demeaning_info = []
      for unsorted in ids.T:
          sort_indices = unsorted.argsort()
          undo_indices = sort_indices.argsort()
          unique_info = np.unique(unsorted[sort_indices], return_index=True,
                                  return_inverse=True, return_counts=True)[1:]
          demeaning_info.append((sort_indices, undo_indices, unique_info))

      def demean(unaltered):
          demeaned = unaltered.copy()
          for sort_indices, undo_indices, (unique_indices, unique_inverse, unique_counts) in demeaning_info:
              means = np.add.reduceat(demeaned[sort_indices], unique_indices) / unique_counts[:, np.newaxis]
              demeaned -= means[unique_inverse][undo_indices]
          return demeaned

      if ids.shape[1] == 1:
          return demean(matrix), errors
      matrix, converged = iteration._iterate(matrix, demean)[:2]
      if not converged:
          errors.add(exceptions.AbsorptionConvergenceError)
      return matrix, errors
  \<close>
  The iteration driver is not part of the program: \<^verbatim>\<open>iteration._iterate\<close> is a parameter,
  which takes the start matrix and the transform and returns a matrix, whether it
  converged, and a count.
\<close>

type_synonym plan = "nat list \<times> nat list \<times> (nat list \<times> nat list \<times> nat list)"

type_synonym driver =
  "fnum mat \<Rightarrow> (fnum mat \<Rightarrow> fnum mat outcome) \<Rightarrow> (fnum mat \<times> bool \<times> nat) outcome"

definition demeaning_info :: "'b::linorder mat \<Rightarrow> plan list" where
  "demeaning_info ids =
     map (\<lambda>unsorted.
            let sort_indices = argsort unsorted;
                undo_indices = argsort sort_indices
            in (sort_indices, undo_indices, unique_info (map (\<lambda>i. unsorted ! i) sort_indices)))
         (rows (T ids))"

definition demean_step :: "plan \<Rightarrow> fnum mat \<Rightarrow> fnum mat outcome" where
  "demean_step info demeaned =
     (case info of (sort_indices, undo_indices, (unique_indices, unique_inverse, unique_counts)) \<Rightarrow>
        seq (take_rows demeaned sort_indices) (\<lambda>sorted_rows.
        seq (add_reduceat sorted_rows unique_indices) (\<lambda>totals.
        seq (broadcast (/) totals (column_vector (map (\<lambda>c. Fin (real c)) unique_counts))) (\<lambda>means.
        seq (take_rows means unique_inverse) (\<lambda>by_position.
        seq (take_rows by_position undo_indices) (\<lambda>by_row.
        isub demeaned by_row))))))"

fun demean :: "plan list \<Rightarrow> fnum mat \<Rightarrow> fnum mat outcome" where
  "demean [] demeaned = Inr demeaned"
| "demean (info # rest) demeaned = seq (demean_step info demeaned) (demean rest)"

definition iteratively_demean ::
  "fnum mat \<Rightarrow> 'b::linorder mat \<Rightarrow> driver \<Rightarrow> (fnum mat \<times> error_signal set) outcome" where
  "iteratively_demean matrix ids iteration =
     (let info = demeaning_info ids
      in if ncols ids = 1 then seq (demean info matrix) (\<lambda>demeaned. Inr (demeaned, {}))
         else seq (iteration matrix (demean info)) (\<lambda>(matrix, converged, count).
              Inr (matrix, if \<not> converged then {ErrorClass AbsorptionConvergenceError} else {})))"

section \<open>compute\_gmm\_se\<close>

text \<open>
  \<^verbatim>\<open>
  def compute_gmm_se(u, Z, W, jacobian, se_type):
      errors = set()
      G = Z.T @ jacobian
      covariances, approximation = invert(G.T @ W @ G)
      if approximation:
          errors.add(lambda: exceptions.GMMParameterCovariancesInversionError(approximation))
      covariances, approximation = invert(G.T @ W @ G)
      with np.errstate(invalid='ignore'):
          if se_type == 'robust':
              covariances = covariances @ G.T @ W @ Z.T @ (np.diagflat(u) ** 2) @ Z @ W @ G @ covariances
          se = np.sqrt(np.c_[covariances.diagonal()])
      if np.isnan(se).any():
          errors.add(exceptions.InvalidCovariancesError)
      return se, errors
  \<close>
  The first inversion decides whether the closure is added; the closure reads the
  variable \<^verbatim>\<open>approximation\<close>, which the second inversion has assigned again.
\<close>

definition compute_gmm_se ::
  "scipy_linalg \<Rightarrow> fnum mat \<Rightarrow> fnum mat \<Rightarrow> fnum mat \<Rightarrow> fnum mat \<Rightarrow> string \<Rightarrow>
   (fnum mat \<times> error_signal set) outcome" where
  "compute_gmm_se lib u Z W jacobian se_type =
     seq (matmul (T Z) jacobian) (\<lambda>G.
     seq (mm (matmul (T G) W) G) (\<lambda>A.
     seq (invert lib A) (\<lambda>(covariances1, approximation1).
     seq (mm (matmul (T G) W) G) (\<lambda>A'.
     seq (invert lib A') (\<lambda>(covariances2, approximation).
     seq (if se_type = ''robust''
          then mm (mm (mm (mm (mm (mm (mm (matmul covariances2 (T G)) W) (T Z))
                 (map_mat (\<lambda>x. x * x) (diagflat u))) Z) W) G) covariances2
          else Inr covariances2) (\<lambda>covariances.
     let se = map_mat fsqrt (column_vector (diagonal covariances))
     in Inr (se,
             (if truthy approximation1
              then {Deferred GMMParameterCovariancesInversionError approximation} else {}) \<union>
             (if any_isnan se then {ErrorClass InvalidCovariancesError} else {}))))))))"

text \<open>
  The variant that inverts once and uses the result both for the reported approximation
  and for the robust adjustment.
\<close>

definition compute_gmm_se_once ::
  "scipy_linalg \<Rightarrow> fnum mat \<Rightarrow> fnum mat \<Rightarrow> fnum mat \<Rightarrow> fnum mat \<Rightarrow> string \<Rightarrow>
   (fnum mat \<times> error_signal set) outcome" where
  "compute_gmm_se_once lib u Z W jacobian se_type =
     seq (matmul (T Z) jacobian) (\<lambda>G.
     seq (mm (matmul (T G) W) G) (\<lambda>A.
     seq (invert lib A) (\<lambda>(inverted, approximation).
     seq (if se_type = ''robust''
          then mm (mm (mm (mm (mm (mm (mm (matmul inverted (T G)) W) (T Z))
                 (map_mat (\<lambda>x. x * x) (diagflat u))) Z) W) G) inverted
          else Inr inverted) (\<lambda>covariances.
     let se = map_mat fsqrt (column_vector (diagonal covariances))
     in Inr (se,
             (if truthy approximation
              then {Deferred GMMParameterCovariancesInversionError approximation} else {}) \<union>
             (if any_isnan se then {ErrorClass InvalidCovariancesError} else {}))))))"

section \<open>compute\_gmm\_weights\<close>


section \<open>Double precision\<close>

text \<open>
  A double is zero or a real number \<open>m \<cdot> 2\<^sup>e\<close> with an integer \<open>m\<close>, \<open>\<bar>m\<bar> < 2\<^sup>5\<^sup>3\<close> and
  \<open>-1074 \<le> e \<le> 971\<close>. On \<^verbatim>\<open>float64\<close> arrays NumPy's \<^verbatim>\<open>+\<close>, \<^verbatim>\<open>-\<close>, \<^verbatim>\<open>*\<close> and \<^verbatim>\<open>/\<close>
  return the exact result rounded to the nearest double, a tie going to the even
  significand, and an infinity when the rounded value reaches \<open>2\<^sup>1\<^sup>0\<^sup>2\<^sup>4\<close> (IEEE 754
  binary64, round to nearest even). \<open>binary64\<close> is that rounding of a real number:
  \<open>ilog2 \<bar>x\<bar>\<close> is the exponent of the binade of \<open>x\<close>, taken to be at least \<open>-1022\<close> so that
  the subnormal numbers come out right, and \<open>q\<close> is the distance between two doubles of
  that binade. \<open>rnd\<close> rounds an entry and leaves the infinities and NaN as they are. The
  two zeros of IEEE 754 are not told apart.
\<close>

definition pow2 :: "int \<Rightarrow> real" where
  "pow2 e = (if 0 \<le> e then 2 ^ nat e else 1 / 2 ^ nat (- e))"

definition ilog2 :: "real \<Rightarrow> int" where
  "ilog2 x =
     (if 1 \<le> x then bitlen \<lfloor>x\<rfloor> - 1
      else let k = bitlen \<lfloor>1 / x\<rfloor> - 1 in if x * pow2 k = 1 then - k else - k - 1)"

definition round_even :: "real \<Rightarrow> int" where
  "round_even y =
     (let f = \<lfloor>y\<rfloor>; d = y - of_int f
      in if d < 1 / 2 then f else if 1 / 2 < d then f + 1 else if even f then f else f + 1)"

definition binary64 :: "real \<Rightarrow> fnum" where
  "binary64 x =
     (if x = 0 then Fin 0
      else let e = max (ilog2 \<bar>x\<bar>) (- 1022);
               q = pow2 (e - 52);
               r = of_int (round_even (x / q)) * q
           in if pow2 1024 \<le> \<bar>r\<bar> then (if 0 < x then PInf else MInf) else Fin r)"

fun rnd :: "fnum \<Rightarrow> fnum" where
  "rnd (Fin a) = binary64 a"
| "rnd x = x"

text \<open>
  The arithmetic of the entries as a parameter: the four operations, and the conversion
  of an integer count to an entry (NumPy converts \<^verbatim>\<open>unique_counts\<close> to \<^verbatim>\<open>float64\<close>
  before it divides). \<open>exact\<close> is the arithmetic of \<open>fnum\<close>; \<open>double\<close> is the arithmetic
  of the program, every result rounded.
\<close>

record arith =
  fadd :: "fnum \<Rightarrow> fnum \<Rightarrow> fnum"
  fsub :: "fnum \<Rightarrow> fnum \<Rightarrow> fnum"
  fmul :: "fnum \<Rightarrow> fnum \<Rightarrow> fnum"
  fdiv :: "fnum \<Rightarrow> fnum \<Rightarrow> fnum"
  fcount :: "nat \<Rightarrow> fnum"

definition exact :: arith where
  "exact = \<lparr>fadd = (+), fsub = (-), fmul = (*), fdiv = (/), fcount = (\<lambda>n. Fin (real n))\<rparr>"

definition double :: arith where
  "double =
     \<lparr>fadd = (\<lambda>x y. rnd (x + y)), fsub = (\<lambda>x y. rnd (x - y)), fmul = (\<lambda>x y. rnd (x * y)),
      fdiv = (\<lambda>x y. rnd (x / y)), fcount = (\<lambda>n. rnd (Fin (real n)))\<rparr>"

text \<open>
  \<^verbatim>\<open>iteratively_demean\<close> with the arithmetic as a parameter. The statements are those of
  the section on \<open>iteratively_demean\<close>; the additions of \<^verbatim>\<open>np.add.reduceat\<close> (row after
  row, from the first row of the block), the division by the counts and the subtraction
  \<^verbatim>\<open>demeaned -= ...\<close> are taken from \<open>ar\<close>.
\<close>

definition add_reduce_with :: "arith \<Rightarrow> fnum list list \<Rightarrow> fnum list" where
  "add_reduce_with ar block = foldl (map2 (fadd ar)) (hd block) (tl block)"

definition add_reduceat_with :: "arith \<Rightarrow> fnum mat \<Rightarrow> nat list \<Rightarrow> fnum mat outcome" where
  "add_reduceat_with ar A indices =
     (if list_all (\<lambda>i. i < nrows A) indices
      then Inr \<lparr>ncols = ncols A,
                rows = map (\<lambda>k. let lo = indices ! k;
                                   hi = (if k + 1 < length indices then indices ! (k + 1) else nrows A)
                               in if lo < hi then add_reduce_with ar (take (hi - lo) (drop lo (rows A)))
                                  else rows A ! lo)
                         [0..<length indices]\<rparr>
      else Inl IndexError)"

definition isub_with :: "arith \<Rightarrow> fnum mat \<Rightarrow> fnum mat \<Rightarrow> fnum mat outcome" where
  "isub_with ar A B =
     seq (broadcast (fsub ar) A B)
       (\<lambda>C. if nrows C = nrows A \<and> ncols C = ncols A then Inr C else Inl ValueError)"

definition demean_step_with :: "arith \<Rightarrow> plan \<Rightarrow> fnum mat \<Rightarrow> fnum mat outcome" where
  "demean_step_with ar info demeaned =
     (case info of (sort_indices, undo_indices, (unique_indices, unique_inverse, unique_counts)) \<Rightarrow>
        seq (take_rows demeaned sort_indices) (\<lambda>sorted_rows.
        seq (add_reduceat_with ar sorted_rows unique_indices) (\<lambda>totals.
        seq (broadcast (fdiv ar) totals (column_vector (map (fcount ar) unique_counts))) (\<lambda>means.
        seq (take_rows means unique_inverse) (\<lambda>by_position.
        seq (take_rows by_position undo_indices) (\<lambda>by_row.
        isub_with ar demeaned by_row))))))"

fun demean_with :: "arith \<Rightarrow> plan list \<Rightarrow> fnum mat \<Rightarrow> fnum mat outcome" where
  "demean_with ar [] demeaned = Inr demeaned"
| "demean_with ar (info # rest) demeaned =
     seq (demean_step_with ar info demeaned) (demean_with ar rest)"

definition iteratively_demean_with ::
  "arith \<Rightarrow> fnum mat \<Rightarrow> 'b::linorder mat \<Rightarrow> driver \<Rightarrow> (fnum mat \<times> error_signal set) outcome" where
  "iteratively_demean_with ar matrix ids iteration =
     (let info = demeaning_info ids
      in if ncols ids = 1 then seq (demean_with ar info matrix) (\<lambda>demeaned. Inr (demeaned, {}))
         else seq (iteration matrix (demean_with ar info)) (\<lambda>(matrix, converged, count).
              Inr (matrix, if \<not> converged then {ErrorClass AbsorptionConvergenceError} else {})))"

text \<open>
  The library for matrices with one entry in double precision: the inverse of \<open>[[a]]\<close> is
  the rounded quotient \<open>1 / a\<close>, and a zero entry is a singular matrix.
\<close>

definition inv_1x1_double :: "fnum mat \<Rightarrow> fnum mat outcome" where
  "inv_1x1_double M =
     (case rows M of
        [[Fin a]] \<Rightarrow>
          if ncols M \<noteq> 1 then Inl ValueError
          else if a = 0 then Inl LinAlgError
          else Inr \<lparr>ncols = 1, rows = [[fdiv double 1 (Fin a)]]\<rparr>
      | _ \<Rightarrow> Inl ValueError)"

definition linalg_1x1_double :: scipy_linalg where
  "linalg_1x1_double = \<lparr>scipy_inv = inv_1x1_double, scipy_pinv = (\<lambda>M. Inl LinAlgError)\<rparr>"

section \<open>Notions used in the statements\<close>

text \<open>
  The shapes under which every product in \<open>estimate\<close> is defined, and the two arrays it
  then returns: the product \<open>covariances \<cdot> X\<^sup>T \<cdot> Z \<cdot> W \<cdot> Z\<^sup>T \<cdot> y\<close> taken from the left, and
  \<open>y\<close> minus \<open>X\<close> times the parameters, entry by entry.
\<close>

definition conformable :: "IV \<Rightarrow> fnum mat \<Rightarrow> bool" where
  "conformable self y =
     (nrows (iv_covariances self) = ncols (iv_X self) \<and>
      ncols (iv_covariances self) = ncols (iv_X self) \<and>
      nrows (iv_Z self) = nrows (iv_X self) \<and>
      nrows (iv_W self) = ncols (iv_Z self) \<and>
      ncols (iv_W self) = ncols (iv_Z self) \<and>
      nrows y = nrows (iv_X self))"

definition parameters_of :: "IV \<Rightarrow> fnum mat \<Rightarrow> fnum mat" where
  "parameters_of self y =
     mat_mult (mat_mult (mat_mult (mat_mult (mat_mult (iv_covariances self) (T (iv_X self)))
       (iv_Z self)) (iv_W self)) (T (iv_Z self))) y"

definition residuals_of :: "IV \<Rightarrow> fnum mat \<Rightarrow> fnum mat \<Rightarrow> fnum mat" where
  "residuals_of self y parameters =
     mk_mat (nrows y) (ncols y)
       (\<lambda>i j. rows y ! i ! j - rows (mat_mult (iv_X self) parameters) ! i ! j)"

text \<open>The arrays of the worked example: \<open>X = Z = [[1],[1],[1]]\<close>, \<open>W = [[1]]\<close>.\<close>

definition ones3 :: "fnum mat" where
  "ones3 = \<lparr>ncols = 1, rows = [[Fin 1], [Fin 1], [Fin 1]]\<rparr>"

definition iv_scenario :: IV where
  "iv_scenario =
     \<lparr>iv_errors = {}, iv_X = ones3, iv_Z = ones3, iv_W = \<lparr>ncols = 1, rows = [[Fin 1]]\<rparr>,
      iv_covariances = \<lparr>ncols = 1, rows = [[Fin (1 / 9)]]\<rparr>\<rparr>"

text \<open>
  \<open>k\<close> applications of a transform that may raise, and a driver that applies the
  transform twice and reports that it has not converged.
\<close>

fun iterated :: "nat \<Rightarrow> ('a \<Rightarrow> 'a outcome) \<Rightarrow> 'a \<Rightarrow> 'a outcome" where
  "iterated 0 f x = Inr x"
| "iterated (Suc k) f x = seq (f x) (iterated k f)"

definition two_passes :: driver where
  "two_passes start f = seq (f start) (\<lambda>once. seq (f once) (\<lambda>twice. Inr (twice, False, 2)))"





text \<open>
  The rows of one group of a column of IDs, the mean of a column of numbers over a group,
  and the matrix with the mean of its group taken from every entry. \<open>real_of\<close> reads a
  finite entry; \<open>failing_driver\<close> is a driver that raises as soon as it is called.
\<close>

definition group_rows :: "'b list \<Rightarrow> 'b \<Rightarrow> nat list" where
  "group_rows c v = filter (\<lambda>i. c ! i = v) [0..<length c]"

definition group_mean :: "'b list \<Rightarrow> 'b \<Rightarrow> fnum list \<Rightarrow> fnum" where
  "group_mean c v xs =
     sum_list (map (\<lambda>i. xs ! i) (group_rows c v)) / Fin (real (length (group_rows c v)))"

definition one_way_demeaned :: "'b list \<Rightarrow> fnum mat \<Rightarrow> fnum mat" where
  "one_way_demeaned c M =
     mk_mat (nrows M) (ncols M) (\<lambda>i j. rows M ! i ! j - group_mean c (c ! i) (col M j))"

fun real_of :: "fnum \<Rightarrow> real" where
  "real_of (Fin a) = a"
| "real_of x = 0"


text \<open>
  The same with the arithmetic as a parameter. \<^verbatim>\<open>np.add.reduceat\<close> adds the rows of a
  group in the order in which \<open>sort_indices\<close> lists them, starting from the first:
  \<open>ordered_group s c v\<close> is the group of \<open>v\<close> in the order of \<open>s\<close>, \<open>reduce_with\<close> the sum
  of a non-empty list from the left, and \<open>group_mean_with\<close> that sum divided by the
  converted count.
\<close>

definition reduce_with :: "arith \<Rightarrow> fnum list \<Rightarrow> fnum" where
  "reduce_with ar xs = foldl (fadd ar) (hd xs) (tl xs)"

definition ordered_group :: "nat list \<Rightarrow> 'b list \<Rightarrow> 'b \<Rightarrow> nat list" where
  "ordered_group s c v = filter (\<lambda>i. c ! i = v) s"

definition group_mean_with :: "arith \<Rightarrow> nat list \<Rightarrow> 'b list \<Rightarrow> 'b \<Rightarrow> fnum list \<Rightarrow> fnum" where
  "group_mean_with ar s c v xs =
     fdiv ar (reduce_with ar (map (\<lambda>i. xs ! i) (ordered_group s c v)))
       (fcount ar (length (ordered_group s c v)))"

definition one_way_demeaned_with :: "arith \<Rightarrow> nat list \<Rightarrow> 'b list \<Rightarrow> fnum mat \<Rightarrow> fnum mat" where
  "one_way_demeaned_with ar s c M =
     mk_mat (nrows M) (ncols M)
       (\<lambda>i j. fsub ar (rows M ! i ! j) (group_mean_with ar s c (c ! i) (col M j)))"

section \<open>Properties of invert\<close>


lemma invert_not_linalg_error: "invert lib M \<noteq> Inl LinAlgError"
  by (auto simp: invert_def split: sum.splits)

lemma invert_caught:
  "scipy_inv lib M = Inl e \<Longrightarrow> isinstance_ValueError e \<Longrightarrow>
   invert lib M = Inr (full_like M NaN, None)"
  by (simp add: invert_def)

subsection \<open>The library for one-entry matrices meets its description\<close>

lemma matmul_1x1: "matmul \<lparr>ncols = Suc 0, rows = [[x]]\<rparr> \<lparr>ncols = Suc 0, rows = [[y]]\<rparr> = Inr \<lparr>ncols = Suc 0, rows = [[x * y]]\<rparr>"
  by (simp add: matmul_def mat_mult_def nrows_def dot_def col_def)

lemma identity_1: "identity (Suc 0) = \<lparr>ncols = Suc 0, rows = [[Fin 1]]\<rparr>"
  by (simp add: identity_def diag_matrix_def one_fnum_def)

lemma mat_1x1_shape:
  assumes "rectangular R" "nrows R = 1" "ncols R = 1"
  shows "\<exists>r. R = \<lparr>ncols = Suc 0, rows = [[r]]\<rparr>"
proof -
  from assms obtain row where r: "rows R = [row]"
    by (cases "rows R") (auto simp: nrows_def)
  with assms have "length row = 1" by (simp add: rectangular_def)
  then obtain x where "row = [x]" by (cases row) auto
  with r assms show ?thesis by (cases R) auto
qed

lemma right_inverse_1x1:
  "right_inverse \<lparr>ncols = Suc 0, rows = [[Fin a]]\<rparr> R \<longleftrightarrow> a \<noteq> 0 \<and> R = \<lparr>ncols = Suc 0, rows = [[Fin (1 / a)]]\<rparr>"
proof
  assume ri: "right_inverse \<lparr>ncols = Suc 0, rows = [[Fin a]]\<rparr> R"
  then obtain r where R: "R = \<lparr>ncols = Suc 0, rows = [[r]]\<rparr>"
    using mat_1x1_shape[of R] by (auto simp: right_inverse_def nrows_def)
  from ri have "Fin a * r = Fin 1"
    unfolding R right_inverse_def by (simp add: matmul_1x1 identity_1 nrows_def)
  then have "a \<noteq> 0 \<and> r = Fin (1 / a)"
    by (cases r; cases "a = 0") (auto split: if_splits simp: field_simps)
  with R show "a \<noteq> 0 \<and> R = \<lparr>ncols = Suc 0, rows = [[Fin (1 / a)]]\<rparr>" by simp
next
  assume "a \<noteq> 0 \<and> R = \<lparr>ncols = Suc 0, rows = [[Fin (1 / a)]]\<rparr>"
  then show "right_inverse \<lparr>ncols = Suc 0, rows = [[Fin a]]\<rparr> R"
    by (simp add: right_inverse_def matmul_1x1 identity_1 nrows_def rectangular_def)
qed

lemma invertible_1x1: "invertible \<lparr>ncols = Suc 0, rows = [[Fin a]]\<rparr> \<longleftrightarrow> a \<noteq> 0"
  by (simp add: invertible_def right_inverse_1x1)

lemma inv_1x1_spec: "scipy_inv_spec inv_1x1 \<lparr>ncols = Suc 0, rows = [[Fin a]]\<rparr>"
  by (simp add: scipy_inv_spec_def invertible_1x1 right_inverse_1x1 inv_1x1_def
      square_def rectangular_def nrows_def finite_mat_def)

subsection \<open>What invert returns\<close>

text \<open>
  Claim C8. When the inversion attempt rejects its input outright (\<open>ValueError\<close>, which is
  what the library answers to a matrix that is not square), \<open>invert\<close> returns normally: a
  matrix of the input's shape whose entries are all NaN, with description \<open>None\<close>. The
  pseudo-inverse is not consulted: the result is the same whatever \<open>scipy_pinv\<close> is.
\<close>

theorem invert_rejected:
  assumes "scipy_inv lib M = Inl ValueError"
  shows "invert lib M = Inr (full_like M NaN, None) \<and>
         (\<forall>p. invert (lib\<lparr>scipy_pinv := p\<rparr>) M = Inr (full_like M NaN, None)) \<and>
         nrows (full_like M NaN) = nrows M \<and> ncols (full_like M NaN) = ncols M \<and>
         map length (rows (full_like M NaN)) = map length (rows M) \<and>
         list_all (list_all isnan) (rows (full_like M NaN))"
  using assms
  by (simp add: full_like_def nrows_def list_all_iff isnan_def invert_def)

theorem invert_rejected_witness:
  "\<not> square \<lparr>ncols = 2, rows = [[Fin 1, Fin 2]]\<rparr> \<and>
   scipy_inv_spec (scipy_inv linalg_1x1) \<lparr>ncols = 2, rows = [[Fin 1, Fin 2]]\<rparr> \<and>
   scipy_inv linalg_1x1 \<lparr>ncols = 2, rows = [[Fin 1, Fin 2]]\<rparr> = Inl ValueError \<and>
   invert linalg_1x1 \<lparr>ncols = 2, rows = [[Fin 1, Fin 2]]\<rparr> =
     Inr (\<lparr>ncols = 2, rows = [[NaN, NaN]]\<rparr>, None)"
proof -
  let ?M = "\<lparr>ncols = 2, rows = [[Fin 1, Fin 2]]\<rparr> :: fnum mat"
  have nsq: "\<not> square ?M" by (simp add: square_def nrows_def)
  have rej: "scipy_inv linalg_1x1 ?M = Inl ValueError"
    by (simp add: linalg_1x1_def inv_1x1_def)
  have spec: "scipy_inv_spec (scipy_inv linalg_1x1) ?M"
    using nsq rej by (simp add: scipy_inv_spec_def)
  from invert_rejected[OF rej] nsq rej spec show ?thesis
    by (simp add: full_like_def)
qed

subsection \<open>A singular matrix\<close>

text \<open>
  Claim C2. The claim is that a singular square matrix gets the pseudo-inverse or the
  diagonal-only description, never \<open>None\<close>. The program does otherwise. For the singular
  matrix \<open>[[0.0]]\<close> the library raises \<open>LinAlgError\<close>; this is a \<open>ValueError\<close>, so the first
  handler of \<open>invert\<close> catches it and \<open>invert\<close> returns the matrix \<open>[[nan]]\<close> with the
  description \<open>None\<close>, with the exact library as with the one in double precision. No
  result with a description is returned. (By \<open>invert_caught\<close> this is so for every matrix
  on which the library raises \<open>LinAlgError\<close>; by \<open>invert_not_linalg_error\<close> no
  \<open>LinAlgError\<close> leaves \<open>invert\<close>, which is the second half of the claim.)
\<close>

theorem invert_singular_caught:
  "square \<lparr>ncols = 1, rows = [[Fin 0]]\<rparr> \<and> finite_mat \<lparr>ncols = 1, rows = [[Fin 0]]\<rparr> \<and>
   \<not> invertible \<lparr>ncols = 1, rows = [[Fin 0]]\<rparr> \<and>
   scipy_inv linalg_1x1 \<lparr>ncols = 1, rows = [[Fin 0]]\<rparr> = Inl LinAlgError \<and>
   scipy_inv linalg_1x1_double \<lparr>ncols = 1, rows = [[Fin 0]]\<rparr> = Inl LinAlgError \<and>
   invert linalg_1x1 \<lparr>ncols = 1, rows = [[Fin 0]]\<rparr> = Inr (\<lparr>ncols = 1, rows = [[NaN]]\<rparr>, None) \<and>
   invert linalg_1x1_double \<lparr>ncols = 1, rows = [[Fin 0]]\<rparr> =
     Inr (\<lparr>ncols = 1, rows = [[NaN]]\<rparr>, None) \<and>
   \<not> (\<exists>R d. invert linalg_1x1 \<lparr>ncols = 1, rows = [[Fin 0]]\<rparr> = Inr (R, Some d))"
proof -
  let ?M = "\<lparr>ncols = 1, rows = [[Fin 0]]\<rparr> :: fnum mat"
  have sq: "square ?M" by (simp add: square_def rectangular_def nrows_def)
  have fin: "finite_mat ?M" by (simp add: finite_mat_def)
  have sing: "\<not> invertible ?M" by (simp add: invertible_1x1)
  have e: "scipy_inv linalg_1x1 ?M = Inl LinAlgError"
    by (simp add: linalg_1x1_def inv_1x1_def)
  have e': "scipy_inv linalg_1x1_double ?M = Inl LinAlgError"
    by (simp add: linalg_1x1_double_def inv_1x1_double_def)
  have v: "invert linalg_1x1 ?M = Inr (\<lparr>ncols = 1, rows = [[NaN]]\<rparr>, None)"
    using invert_caught[OF e] by (simp add: full_like_def)
  have v': "invert linalg_1x1_double ?M = Inr (\<lparr>ncols = 1, rows = [[NaN]]\<rparr>, None)"
    using invert_caught[OF e'] by (simp add: full_like_def)
  from v have "\<not> (\<exists>R d. invert linalg_1x1 ?M = Inr (R, Some d))" by simp
  with sq fin sing e e' v v' show ?thesis by blast
qed

subsection \<open>An invertible matrix\<close>







section \<open>Properties of IV\<close>

lemma mk_mat_cong:
  "(\<And>i j. i < n \<Longrightarrow> j < m \<Longrightarrow> f i j = g i j) \<Longrightarrow> mk_mat n m f = mk_mat n m g"
  by (simp add: mk_mat_def)

lemma nrows_mk_mat [simp]: "nrows (mk_mat n m f) = n"
  and ncols_mk_mat [simp]: "ncols (mk_mat n m f) = m"
  by (simp_all add: mk_mat_def nrows_def)

lemma nrows_mat_mult [simp]: "nrows (mat_mult A B) = nrows A"
  and ncols_mat_mult [simp]: "ncols (mat_mult A B) = ncols B"
  by (simp_all add: mat_mult_def nrows_def)

lemma nrows_T [simp]: "nrows (T A) = ncols A"
  and ncols_T [simp]: "ncols (T A) = nrows A"
  by (simp_all add: T_def nrows_def)

lemma bget_in_range:
  "i < nrows A \<Longrightarrow> j < ncols A \<Longrightarrow> bget A i j = rows A ! i ! j"
  by (auto simp: bget_def)

lemma broadcast_same_shape:
  assumes "nrows A = nrows B" and "ncols A = ncols B"
  shows "broadcast f A B =
           Inr (mk_mat (nrows A) (ncols A) (\<lambda>i j. f (rows A ! i ! j) (rows B ! i ! j)))"
proof -
  have "mk_mat (nrows A) (ncols A) (\<lambda>i j. f (bget A i j) (bget B i j)) =
        mk_mat (nrows A) (ncols A) (\<lambda>i j. f (rows A ! i ! j) (rows B ! i ! j))"
    using assms by (intro mk_mat_cong) (simp add: bget_in_range)
  with assms show ?thesis by (simp add: broadcast_def bdim_def)
qed

lemma seq_Inr_iff: "seq r f = Inr v \<longleftrightarrow> (\<exists>x. r = Inr x \<and> f x = Inr v)"
  by (cases r) (simp_all add: seq_def)

lemma estimate_conformable:
  assumes "conformable self y"
  shows "estimate self y True =
           Inr (self, ParametersResiduals (parameters_of self y)
                        (residuals_of self y (parameters_of self y)))"
    and "estimate self y False = Inr (self, Parameters (parameters_of self y))"
  using assms
  by (simp_all add: conformable_def estimate_def seq_def mm_def matmul_def parameters_of_def
      residuals_of_def broadcast_same_shape)

lemma scipy_inv_spec_1x1:
  assumes "scipy_inv_spec f \<lparr>ncols = Suc 0, rows = [[Fin a]]\<rparr>" and "a \<noteq> 0"
  shows "f \<lparr>ncols = Suc 0, rows = [[Fin a]]\<rparr> = Inr \<lparr>ncols = Suc 0, rows = [[Fin (1 / a)]]\<rparr>"
  using assms
  by (auto simp: scipy_inv_spec_def invertible_1x1 right_inverse_1x1 square_def rectangular_def
      nrows_def finite_mat_def)

lemma IV_init_scenario:
  assumes "scipy_inv_spec (scipy_inv lib) \<lparr>ncols = 1, rows = [[Fin 9]]\<rparr>"
  shows "IV_init lib ones3 ones3 \<lparr>ncols = 1, rows = [[Fin 1]]\<rparr> =
           Inr \<lparr>iv_errors = {}, iv_X = ones3, iv_Z = ones3, iv_W = \<lparr>ncols = 1, rows = [[Fin 1]]\<rparr>,
                iv_covariances = \<lparr>ncols = 1, rows = [[Fin (1 / 9)]]\<rparr>\<rparr>"
proof -
  have "mm (mm (mm (matmul (T ones3) ones3) \<lparr>ncols = 1, rows = [[Fin 1]]\<rparr>) (T ones3)) ones3 =
        Inr \<lparr>ncols = 1, rows = [[Fin 9]]\<rparr>"
    by (simp add: ones3_def seq_def mm_def matmul_def mat_mult_def T_def nrows_def col_def dot_def
        zero_fnum_def)
  moreover have "invert lib \<lparr>ncols = 1, rows = [[Fin 9]]\<rparr> = Inr (\<lparr>ncols = 1, rows = [[Fin (1 / 9)]]\<rparr>, None)"
    using scipy_inv_spec_1x1[of "scipy_inv lib" 9] assms by (simp add: invert_def)
  ultimately show ?thesis
    by (simp add: IV_init_def seq_def truthy_def)
qed

lemma estimate_scenario:
  "estimate \<lparr>iv_errors = {}, iv_X = ones3, iv_Z = ones3, iv_W = \<lparr>ncols = 1, rows = [[Fin 1]]\<rparr>,
                iv_covariances = \<lparr>ncols = 1, rows = [[Fin (1 / 9)]]\<rparr>\<rparr>
      \<lparr>ncols = 1, rows = [[Fin 2], [Fin 2], [Fin 2]]\<rparr> True =
   Inr (\<lparr>iv_errors = {}, iv_X = ones3, iv_Z = ones3, iv_W = \<lparr>ncols = 1, rows = [[Fin 1]]\<rparr>,
                iv_covariances = \<lparr>ncols = 1, rows = [[Fin (1 / 9)]]\<rparr>\<rparr>,
        ParametersResiduals \<lparr>ncols = 1, rows = [[Fin 2]]\<rparr>
          \<lparr>ncols = 1, rows = [[Fin 0], [Fin 0], [Fin 0]]\<rparr>)"
  by (simp add: estimate_def ones3_def seq_def mm_def matmul_def mat_mult_def T_def nrows_def
      col_def dot_def zero_fnum_def broadcast_def bdim_def mk_mat_def bget_def minus_fnum_def
      upt_rec[of 0 "Suc (Suc (Suc 0))"] upt_rec[of 1] upt_rec[of "Suc 0"] upt_rec[of 2] upt_rec[of 3]
      numeral_3_eq_3)

text \<open>
  Claim C4. When the shapes conform, \<open>estimate\<close> returns the parameters
  \<open>covariances \<cdot> X\<^sup>T \<cdot> Z \<cdot> W \<cdot> Z\<^sup>T \<cdot> y\<close> and the residuals \<open>y - X \<cdot> parameters\<close>, and leaves
  the object (so its stored covariances) as it was. For \<open>X = Z = [[1],[1],[1]]\<close>,
  \<open>W = [[1]]\<close> and \<open>y = [[2],[2],[2]]\<close>, with a library that inverts \<open>[[9]]\<close> as documented,
  the parameters are \<open>[[2]]\<close> and the residuals \<open>[[0],[0],[0]]\<close>.
\<close>

theorem estimate_correct:
  "(conformable self y \<longrightarrow>
      estimate self y True =
        Inr (self, ParametersResiduals (parameters_of self y)
                     (residuals_of self y (parameters_of self y)))) \<and>
   (scipy_inv_spec (scipy_inv lib) \<lparr>ncols = 1, rows = [[Fin 9]]\<rparr> \<longrightarrow>
      (\<exists>iv. IV_init lib ones3 ones3 \<lparr>ncols = 1, rows = [[Fin 1]]\<rparr> = Inr iv \<and>
            estimate iv \<lparr>ncols = 1, rows = [[Fin 2], [Fin 2], [Fin 2]]\<rparr> True =
              Inr (iv, ParametersResiduals \<lparr>ncols = 1, rows = [[Fin 2]]\<rparr>
                         \<lparr>ncols = 1, rows = [[Fin 0], [Fin 0], [Fin 0]]\<rparr>)))"
  using estimate_conformable(1)[of self y] IV_init_scenario[of lib] estimate_scenario
  by simp

theorem estimate_correct_witness:
  "conformable iv_scenario \<lparr>ncols = 1, rows = [[Fin 2], [Fin 2], [Fin 2]]\<rparr> \<and>
   scipy_inv_spec (scipy_inv linalg_1x1) \<lparr>ncols = 1, rows = [[Fin 9]]\<rparr> \<and>
   IV_init linalg_1x1 ones3 ones3 \<lparr>ncols = 1, rows = [[Fin 1]]\<rparr> = Inr iv_scenario \<and>
   estimate iv_scenario \<lparr>ncols = 1, rows = [[Fin 2], [Fin 2], [Fin 2]]\<rparr> True =
     Inr (iv_scenario,
          ParametersResiduals (parameters_of iv_scenario \<lparr>ncols = 1, rows = [[Fin 2], [Fin 2], [Fin 2]]\<rparr>)
            (residuals_of iv_scenario \<lparr>ncols = 1, rows = [[Fin 2], [Fin 2], [Fin 2]]\<rparr>
               (parameters_of iv_scenario \<lparr>ncols = 1, rows = [[Fin 2], [Fin 2], [Fin 2]]\<rparr>))) \<and>
   parameters_of iv_scenario \<lparr>ncols = 1, rows = [[Fin 2], [Fin 2], [Fin 2]]\<rparr> =
     \<lparr>ncols = 1, rows = [[Fin 2]]\<rparr>"
proof -
  let ?y = "\<lparr>ncols = 1, rows = [[Fin 2], [Fin 2], [Fin 2]]\<rparr>"
  have c: "conformable iv_scenario ?y"
    by (simp add: conformable_def iv_scenario_def ones3_def nrows_def)
  have s: "scipy_inv_spec (scipy_inv linalg_1x1) \<lparr>ncols = 1, rows = [[Fin 9]]\<rparr>"
    by (simp add: linalg_1x1_def inv_1x1_spec)
  have i: "IV_init linalg_1x1 ones3 ones3 \<lparr>ncols = 1, rows = [[Fin 1]]\<rparr> = Inr iv_scenario"
    using IV_init_scenario[OF s] by (simp add: iv_scenario_def)
  have e: "estimate iv_scenario ?y True =
     Inr (iv_scenario, ParametersResiduals (parameters_of iv_scenario ?y)
            (residuals_of iv_scenario ?y (parameters_of iv_scenario ?y)))"
    using estimate_correct[of iv_scenario ?y linalg_1x1] c by blast
  then have "parameters_of iv_scenario ?y = \<lparr>ncols = 1, rows = [[Fin 2]]\<rparr>"
    using estimate_scenario by (simp add: iv_scenario_def)
  with c s i e show ?thesis by blast
qed

text \<open>
  Claim C10. Without residuals \<open>estimate\<close> returns the parameters alone, not a tuple; with
  residuals it returns the pair of parameters and residuals; the parameters are the same
  in both. (With residuals the call can raise in the subtraction where the other call
  returns; when the shapes conform both return.)
\<close>

theorem estimate_compute_residuals:
  "(estimate self y True = Inr (self', r) \<longrightarrow>
      (\<exists>p res. r = ParametersResiduals p res \<and> estimate self y False = Inr (self', Parameters p))) \<and>
   (estimate self y False = Inr (self', r') \<longrightarrow>
      (\<exists>p. r' = Parameters p \<and>
           (\<forall>s r''. estimate self y True = Inr (s, r'') \<longrightarrow>
                    (\<exists>res. r'' = ParametersResiduals p res)))) \<and>
   (conformable self y \<longrightarrow>
      (\<exists>p res. estimate self y False = Inr (self, Parameters p) \<and>
               estimate self y True = Inr (self, ParametersResiduals p res)))"
proof (intro conjI impI)
  assume "estimate self y True = Inr (self', r)"
  then show "\<exists>p res. r = ParametersResiduals p res \<and> estimate self y False = Inr (self', Parameters p)"
    by (auto simp: estimate_def seq_Inr_iff)
next
  assume "estimate self y False = Inr (self', r')"
  then show "\<exists>p. r' = Parameters p \<and>
           (\<forall>s r''. estimate self y True = Inr (s, r'') \<longrightarrow> (\<exists>res. r'' = ParametersResiduals p res))"
    by (auto simp: estimate_def seq_Inr_iff)
next
  assume "conformable self y"
  then show "\<exists>p res. estimate self y False = Inr (self, Parameters p) \<and>
               estimate self y True = Inr (self, ParametersResiduals p res)"
    by (simp add: estimate_conformable)
qed

theorem estimate_compute_residuals_witness:
  "conformable iv_scenario \<lparr>ncols = 1, rows = [[Fin 2], [Fin 2], [Fin 2]]\<rparr> \<and>
   estimate iv_scenario \<lparr>ncols = 1, rows = [[Fin 2], [Fin 2], [Fin 2]]\<rparr> True =
     Inr (iv_scenario, ParametersResiduals \<lparr>ncols = 1, rows = [[Fin 2]]\<rparr>
                         \<lparr>ncols = 1, rows = [[Fin 0], [Fin 0], [Fin 0]]\<rparr>) \<and>
   estimate iv_scenario \<lparr>ncols = 1, rows = [[Fin 2], [Fin 2], [Fin 2]]\<rparr> False =
     Inr (iv_scenario, Parameters \<lparr>ncols = 1, rows = [[Fin 2]]\<rparr>)"
proof -
  let ?y = "\<lparr>ncols = 1, rows = [[Fin 2], [Fin 2], [Fin 2]]\<rparr>"
  let ?r = "ParametersResiduals \<lparr>ncols = 1, rows = [[Fin 2]]\<rparr> \<lparr>ncols = 1, rows = [[Fin 0], [Fin 0], [Fin 0]]\<rparr>"
  have c: "conformable iv_scenario ?y"
    by (simp add: conformable_def iv_scenario_def ones3_def nrows_def)
  have t: "estimate iv_scenario ?y True = Inr (iv_scenario, ?r)"
    unfolding iv_scenario_def by (rule estimate_scenario)
  have "estimate iv_scenario ?y True = Inr (iv_scenario, ?r) \<longrightarrow>
      (\<exists>p res. ?r = ParametersResiduals p res \<and> estimate iv_scenario ?y False = Inr (iv_scenario, Parameters p))"
    using estimate_compute_residuals[of iv_scenario ?y iv_scenario ?r] by (rule conjunct1)
  with t obtain p res where "?r = ParametersResiduals p res"
    and f: "estimate iv_scenario ?y False = Inr (iv_scenario, Parameters p)"
    by blast
  then have "p = \<lparr>ncols = 1, rows = [[Fin 2]]\<rparr>" by simp
  with f c t show ?thesis by blast
qed

section \<open>Properties of compute\_gmm\_se\<close>

lemma map_mat_column_vector: "map_mat f (column_vector v) = column_vector (map f v)"
  by (simp add: map_mat_def column_vector_def comp_def)

lemma any_isnan_column_vector: "any_isnan (column_vector v) = list_ex isnan v"
  by (simp add: any_isnan_def column_vector_def list_ex_iff)

text \<open>
  Claim C9. The two inversions in \<open>compute_gmm_se\<close> are of the same matrix and give the
  same pair, so the variant that inverts once and uses the result for the reported
  approximation and for the robust adjustment returns the same standard errors and the
  same errors on every input.
\<close>

theorem compute_gmm_se_once_equiv:
  "compute_gmm_se lib u Z W jacobian se_type = compute_gmm_se_once lib u Z W jacobian se_type"
  by (simp add: compute_gmm_se_def compute_gmm_se_once_def seq_def split: sum.splits prod.splits)

text \<open>
  Claim C7. When \<open>se_type\<close> is not \<open>'robust'\<close>, \<open>compute_gmm_se\<close> returns, as a column, the
  square roots of the diagonal of \<open>invert (G\<^sup>T \<cdot> W \<cdot> G)\<close> with \<open>G = Z\<^sup>T \<cdot> jacobian\<close>; no
  sandwich product is formed and the result does not depend on \<open>u\<close>.
\<close>

theorem compute_gmm_se_unadjusted:
  assumes "se_type \<noteq> ''robust''"
  shows "compute_gmm_se lib u Z W jacobian se_type =
           seq (matmul (T Z) jacobian) (\<lambda>G.
           seq (mm (matmul (T G) W) G) (\<lambda>A.
           seq (invert lib A) (\<lambda>(covariances, approximation).
           Inr (column_vector (map fsqrt (diagonal covariances)),
                (if truthy approximation
                 then {Deferred GMMParameterCovariancesInversionError approximation} else {}) \<union>
                (if list_ex isnan (map fsqrt (diagonal covariances))
                 then {ErrorClass InvalidCovariancesError} else {}))))) \<and>
         (\<forall>u'. compute_gmm_se lib u' Z W jacobian se_type =
               compute_gmm_se lib u Z W jacobian se_type)"
  using assms
  by (simp add: compute_gmm_se_def seq_def map_mat_column_vector any_isnan_column_vector
      split: sum.splits prod.splits)

theorem compute_gmm_se_unadjusted_witness:
  "''unadjusted'' \<noteq> ''robust'' \<and>
   compute_gmm_se linalg_1x1 \<lparr>ncols = 1, rows = [[Fin 3], [Fin 5]]\<rparr>
       \<lparr>ncols = 1, rows = [[Fin 1], [Fin 1]]\<rparr> \<lparr>ncols = 1, rows = [[Fin 1]]\<rparr>
       \<lparr>ncols = 1, rows = [[Fin 1], [Fin 1]]\<rparr> ''unadjusted'' =
     Inr (\<lparr>ncols = 1, rows = [[Fin (1 / 2)]]\<rparr>, {})"
proof -
  have ne: "''unadjusted'' \<noteq> ''robust''" by simp
  have inv4: "scipy_inv linalg_1x1 \<lparr>ncols = Suc 0, rows = [[Fin 4]]\<rparr> = Inr \<lparr>ncols = 1, rows = [[Fin (1/4)]]\<rparr>"
    by (simp add: linalg_1x1_def inv_1x1_def)
  show ?thesis
    using compute_gmm_se_unadjusted[OF ne, of linalg_1x1 "\<lparr>ncols = 1, rows = [[Fin 3], [Fin 5]]\<rparr>"
       "\<lparr>ncols = 1, rows = [[Fin 1], [Fin 1]]\<rparr>" "\<lparr>ncols = 1, rows = [[Fin 1]]\<rparr>"
       "\<lparr>ncols = 1, rows = [[Fin 1], [Fin 1]]\<rparr>"]
    by (simp add: seq_def mm_def matmul_def mat_mult_def T_def nrows_def col_def dot_def
        invert_def inv4 column_vector_def diagonal_def truthy_def isnan_def zero_fnum_def real_sqrt_divide)
qed

section \<open>Properties of iteratively\_demean\<close>

lemma isub_shape:
  "isub A B = Inr C \<Longrightarrow> nrows C = nrows A \<and> ncols C = ncols A"
  by (auto simp: isub_def seq_Inr_iff split: if_splits)

lemma demean_step_shape:
  "demean_step info M = Inr M' \<Longrightarrow> nrows M' = nrows M \<and> ncols M' = ncols M"
  by (cases info) (auto simp: demean_step_def seq_Inr_iff dest: isub_shape)

lemma demean_shape:
  "demean infos M = Inr M' \<Longrightarrow> nrows M' = nrows M \<and> ncols M' = ncols M"
proof (induction infos arbitrary: M)
  case Nil
  then show ?case by simp
next
  case (Cons info rest)
  from Cons.prems obtain M1 where 1: "demean_step info M = Inr M1" and 2: "demean rest M1 = Inr M'"
    by (auto simp: seq_Inr_iff)
  from Cons.IH[OF 2] demean_step_shape[OF 1] show ?case by simp
qed

lemma iterated_demean_shape:
  "iterated k (demean infos) M = Inr M' \<Longrightarrow> nrows M' = nrows M \<and> ncols M' = ncols M"
proof (induction k arbitrary: M)
  case 0
  then show ?case by simp
next
  case (Suc k)
  from Suc.prems obtain M1 where 1: "demean infos M = Inr M1" and 2: "iterated k (demean infos) M1 = Inr M'"
    by (auto simp: seq_Inr_iff)
  from Suc.IH[OF 2] demean_shape[OF 1] show ?case by simp
qed

text \<open>
  Claim C6. When the grouping array does not have exactly one column (so with two or more)
  and the driver reports that it has not converged, \<open>iteratively_demean\<close> returns normally:
  the driver's matrix, and an errors set whose one element is the class
  \<open>AbsorptionConvergenceError\<close> itself, not a closure. When the driver's matrix is what some
  number of applications of the transform give, it has the shape of the input.
\<close>

theorem iteratively_demean_not_converged:
  assumes "ncols ids \<noteq> 1"
    and "iteration matrix (demean (demeaning_info ids)) = Inr (result, False, passes)"
  shows "iteratively_demean matrix ids iteration =
           Inr (result, {ErrorClass AbsorptionConvergenceError}) \<and>
         ((\<exists>k. iterated k (demean (demeaning_info ids)) matrix = Inr result) \<longrightarrow>
            nrows result = nrows matrix \<and> ncols result = ncols matrix)"
  using assms by (auto simp: iteratively_demean_def seq_def dest: iterated_demean_shape)

lemma demean_example:
  "demean (demeaning_info \<lparr>ncols = 2, rows = [[0::nat, 0]]\<rparr>) \<lparr>ncols = 1, rows = [[Fin 7]]\<rparr> =
     Inr \<lparr>ncols = 1, rows = [[Fin 0]]\<rparr>"
  by code_simp

lemma demean_example2:
  "demean (demeaning_info \<lparr>ncols = 2, rows = [[0::nat, 0]]\<rparr>) \<lparr>ncols = 1, rows = [[Fin 0]]\<rparr> =
     Inr \<lparr>ncols = 1, rows = [[Fin 0]]\<rparr>"
  by code_simp

theorem iteratively_demean_not_converged_witness:
  "ncols \<lparr>ncols = 2, rows = [[0::nat, 0]]\<rparr> \<noteq> 1 \<and>
   two_passes \<lparr>ncols = 1, rows = [[Fin 7]]\<rparr> (demean (demeaning_info \<lparr>ncols = 2, rows = [[0::nat, 0]]\<rparr>)) =
     Inr (\<lparr>ncols = 1, rows = [[Fin 0]]\<rparr>, False, 2) \<and>
   iterated 2 (demean (demeaning_info \<lparr>ncols = 2, rows = [[0::nat, 0]]\<rparr>)) \<lparr>ncols = 1, rows = [[Fin 7]]\<rparr> =
     Inr \<lparr>ncols = 1, rows = [[Fin 0]]\<rparr> \<and>
   iteratively_demean \<lparr>ncols = 1, rows = [[Fin 7]]\<rparr> \<lparr>ncols = 2, rows = [[0::nat, 0]]\<rparr> two_passes =
     Inr (\<lparr>ncols = 1, rows = [[Fin 0]]\<rparr>, {ErrorClass AbsorptionConvergenceError}) \<and>
   nrows \<lparr>ncols = 1, rows = [[Fin 0]]\<rparr> = nrows \<lparr>ncols = 1, rows = [[Fin 7 :: fnum]]\<rparr>"
proof -
  let ?ids = "\<lparr>ncols = 2, rows = [[0::nat, 0]]\<rparr>"
  let ?M = "\<lparr>ncols = 1, rows = [[Fin 7]]\<rparr>"
  let ?R = "\<lparr>ncols = 1, rows = [[Fin 0]]\<rparr>"
  have c: "ncols ?ids \<noteq> 1" by simp
  have d: "two_passes ?M (demean (demeaning_info ?ids)) = Inr (?R, False, 2)"
    using demean_example demean_example2 by (simp add: two_passes_def seq_def)
  have i: "iterated 2 (demean (demeaning_info ?ids)) ?M = Inr ?R"
    using demean_example demean_example2 by (simp add: numeral_2_eq_2 seq_def)
  from iteratively_demean_not_converged[where iteration = two_passes and matrix = ?M, OF c d] c d i show ?thesis
    by (simp add: nrows_def)
qed

section \<open>Properties of compute\_gmm\_weights\<close>

lemma mk_mat_nth: "i < n \<Longrightarrow> j < m \<Longrightarrow> rows (mk_mat n m f) ! i ! j = f i j"
  by (simp add: mk_mat_def)


lemma bdim_simps [simp]: "bdim n n = Some n" "bdim n (Suc 0) = Some n" "bdim (Suc 0) n = Some n"
  by (auto simp: bdim_def)




lemma times_NaN [simp]: "x * NaN = NaN" "NaN * x = NaN"
  by (cases x; simp)+








section \<open>One grouping column\<close>

subsection \<open>Lists sorted by a key\<close>

lemma sorted_key_split:
  "sorted (map key xs) \<Longrightarrow>
   xs = filter (\<lambda>x. key x < v) xs @ filter (\<lambda>x. key x = v) xs @ filter (\<lambda>x. v < key x) xs"
proof (induction xs)
  case Nil
  then show ?case by simp
next
  case (Cons x xs)
  then have IH: "xs = filter (\<lambda>x. key x < v) xs @ filter (\<lambda>x. key x = v) xs @ filter (\<lambda>x. v < key x) xs"
    and le: "\<forall>y\<in>set xs. key x \<le> key y" by auto
  consider "key x < v" | "key x = v" | "v < key x" by (metis less_linear)
  then show ?case
  proof cases
    case 1
    then have "key x \<noteq> v" "\<not> v < key x" by auto
    with 1 IH[symmetric] show ?thesis by simp
  next
    case 2
    with le have "filter (\<lambda>x. key x < v) xs = []" by (auto simp: filter_empty_conv)
    with 2 IH[symmetric] show ?thesis by simp
  next
    case 3
    with le have "filter (\<lambda>x. key x < v) xs = []" "filter (\<lambda>x. key x = v) xs = []"
      by (auto simp: filter_empty_conv)
    moreover from 3 have "key x \<noteq> v" "\<not> key x < v" by auto
    ultimately show ?thesis using 3 IH[symmetric] by simp
  qed
qed

lemma length_filter_le_split:
  "length (filter (\<lambda>x. key x \<le> (v::'k::linorder)) xs) =
   length (filter (\<lambda>x. key x < v) xs) + length (filter (\<lambda>x. key x = v) xs)"
  by (induction xs) auto

lemma sorted_key_segment:
  assumes "sorted (map key xs)"
  shows "take (length (filter (\<lambda>x. key x \<le> v) xs) - length (filter (\<lambda>x. key x < v) xs))
           (drop (length (filter (\<lambda>x. key x < v) xs)) xs) = filter (\<lambda>x. key x = v) xs"
proof -
  let ?lt = "filter (\<lambda>x. key x < v) xs" and ?eq = "filter (\<lambda>x. key x = v) xs"
  let ?gt = "filter (\<lambda>x. v < key x) xs"
  have "drop (length ?lt) xs = drop (length ?lt) (?lt @ ?eq @ ?gt)"
    using sorted_key_split[OF assms, of v] by simp
  then have "drop (length ?lt) xs = ?eq @ ?gt" by simp
  then show ?thesis by (simp add: length_filter_le_split)
qed

lemma first_index_sorted:
  assumes "sorted xs" and "v \<in> set xs"
  shows "first_index xs v = length (filter (\<lambda>x. x < v) xs)"
  using assms
proof (induction xs)
  case Nil
  then show ?case by simp
next
  case (Cons x xs)
  show ?case
  proof (cases "x = v")
    case True
    with Cons.prems have "filter (\<lambda>x. x < v) xs = []" by (auto simp: filter_empty_conv)
    with True show ?thesis by (simp add: first_index_def)
  next
    case False
    with Cons.prems have "v \<in> set xs" "sorted xs" "x \<le> v" by auto
    with False Cons.IH show ?thesis by (simp add: first_index_def)
  qed
qed

lemma first_index_less: "v \<in> set xs \<Longrightarrow> first_index xs v < length xs"
  unfolding first_index_def by (induction xs) auto

lemma nth_first_index: "v \<in> set xs \<Longrightarrow> xs ! first_index xs v = v"
  unfolding first_index_def by (induction xs) auto

subsection \<open>The sorted distinct values\<close>

lemma next_unique_filter:
  fixes a :: "'k::linorder list"
  assumes U: "sorted U" "distinct U" "set U = set a" and q: "Suc q < length U"
  shows "filter (\<lambda>x. x < U ! Suc q) a = filter (\<lambda>x. x \<le> U ! q) a"
proof (rule filter_cong[OF refl])
  fix x assume "x \<in> set a"
  with U obtain r where r: "r < length U" "U ! r = x" by (metis in_set_conv_nth)
  have strict: "sorted_wrt (<) U" using U by (simp add: strict_sorted_iff)
  show "(x < U ! Suc q) = (x \<le> U ! q)"
  proof
    assume "x < U ! Suc q"
    then have "r < Suc q"
      using r q U(1) by (metis leD leI sorted_nth_mono)
    then have "r \<le> q" by simp
    then show "x \<le> U ! q" using r q U(1) by (metis Suc_lessD sorted_nth_mono)
  next
    assume "x \<le> U ! q"
    moreover have "U ! q < U ! Suc q" using strict q by (simp add: sorted_wrt_nth_less)
    ultimately show "x < U ! Suc q" by simp
  qed
qed

lemma last_unique_filter:
  fixes a :: "'k::linorder list"
  assumes U: "sorted U" "set U = set a" and q: "Suc q = length U"
  shows "filter (\<lambda>x. x \<le> U ! q) a = a"
proof -
  have "x \<le> U ! q" if "x \<in> set a" for x
  proof -
    from that U obtain r where r: "r < length U" "U ! r = x" by (metis in_set_conv_nth)
    then have "r \<le> q" using q by simp
    then show ?thesis using r q U(1) by (metis lessI sorted_nth_mono)
  qed
  then show ?thesis by simp
qed

subsection \<open>Sums of rows\<close>

lemma foldl_map2_nth:
  assumes "length acc = m" and "\<forall>r\<in>set rs. length r = m" and "j < m"
  shows "foldl (map2 f) acc rs ! j = foldl f (acc ! j) (map (\<lambda>r. r ! j) rs)"
    and "length (foldl (map2 f) acc rs) = m"
  using assms
proof (induction rs arbitrary: acc)
  case Nil
  { case 1 then show ?case by simp }
  { case 2 then show ?case by simp }
next
  case (Cons r rs)
  { case 1
    then have "length (map2 f acc r) = m" by simp
    with Cons.IH(1)[of "map2 f acc r"] 1 show ?case by simp }
  { case 2
    then have "length (map2 f acc r) = m" by simp
    with Cons.IH(2)[of "map2 f acc r"] 2 show ?case by simp }
qed

lemma add_reduce_with_nth:
  assumes "block \<noteq> []" and "\<forall>r\<in>set block. length r = m" and "j < m"
  shows "add_reduce_with ar block ! j = reduce_with ar (map (\<lambda>r. r ! j) block)"
proof -
  obtain r rs where b: "block = r # rs" using assms(1) by (cases block) auto
  with assms have "length r = m" "\<forall>r\<in>set rs. length r = m" by auto
  from foldl_map2_nth(1)[OF this assms(3)] b
  show ?thesis by (simp add: add_reduce_with_def reduce_with_def)
qed

subsection \<open>argsort\<close>

lemma mset_argsort: "mset (argsort v) = mset [0..<length v]"
  by (simp add: argsort_def)

lemma sorted_argsort: "sorted (map (\<lambda>i. v ! i) (argsort v))"
  by (simp add: argsort_def)

lemma perm_upt_props:
  assumes "mset s = mset [0..<n]"
  shows "length s = n" "set s = {0..<n}" "distinct s"
proof -
  show "length s = n" using assms by (metis length_upt mset_eq_length minus_nat.diff_0)
  show "set s = {0..<n}" using assms by (metis mset_eq_setD atLeastLessThan_upt)
  show "distinct s" using assms by (metis distinct_upt mset_eq_imp_distinct_iff)
qed

lemma argsort_inverse:
  assumes "mset s = mset [0..<n]" and "r < n"
  shows "argsort s ! r < n" and "s ! (argsort s ! r) = r"
proof -
  let ?u = "argsort s"
  note s = perm_upt_props[OF assms(1)]
  have u: "mset ?u = mset [0..<n]" using s by (simp add: mset_argsort)
  note up = perm_upt_props[OF u]
  have "sorted (map (\<lambda>i. s ! i) ?u)" by (rule sorted_argsort)
  moreover have "set (map (\<lambda>i. s ! i) ?u) = {0..<n}"
  proof -
    have "set (map (\<lambda>i. s ! i) ?u) = (\<lambda>i. s ! i) ` {0..<length s}" using up s by simp
    also have "\<dots> = set s" by (metis atLeast0LessThan nth_image take_all order_refl)
    finally show ?thesis using s by simp
  qed
  moreover have "distinct (map (\<lambda>i. s ! i) ?u)"
    unfolding distinct_map using up s by (auto simp: inj_on_def nth_eq_iff_index_eq)
  ultimately have "map (\<lambda>i. s ! i) ?u = [0..<n]"
    by (intro sorted_distinct_set_unique) simp_all
  then have "map (\<lambda>i. s ! i) ?u ! r = [0..<n] ! r" by simp
  then show "s ! (?u ! r) = r" using assms(2) up by simp
  show "?u ! r < n" using up assms(2) by (metis atLeastLessThan_iff nth_mem)
qed

text \<open>The sort of the model is stable: it lists the rows of a group in their order.\<close>

lemma ordered_group_argsort: "ordered_group (argsort c) c v = group_rows c v"
  unfolding ordered_group_def argsort_def group_rows_def by (rule sort_key_stable)

subsection \<open>Segments of a sorted column\<close>

lemma segment_bounds:
  fixes a :: "'k::linorder list"
  assumes "sorted a" and "k < length (sort (remdups a))"
  defines "U \<equiv> sort (remdups a)"
  shows "first_index a (U ! k) = length (filter (\<lambda>x. x < U ! k) a)"
    and "(if k + 1 < length U then first_index a (U ! (k + 1)) else length a) =
         length (filter (\<lambda>x. x \<le> U ! k) a)"
    and "length (filter (\<lambda>x. x < U ! k) a) < length (filter (\<lambda>x. x \<le> U ! k) a)"
proof -
  have U: "sorted U" "distinct U" "set U = set a" by (simp_all add: U_def)
  have k: "k < length U" using assms(2) by (simp add: U_def)
  then have mem: "U ! k \<in> set a" using U by (metis nth_mem)
  show "first_index a (U ! k) = length (filter (\<lambda>x. x < U ! k) a)"
    using assms(1) mem by (rule first_index_sorted)
  show "(if k + 1 < length U then first_index a (U ! (k + 1)) else length a) =
         length (filter (\<lambda>x. x \<le> U ! k) a)"
  proof (cases "k + 1 < length U")
    case True
    then have "U ! Suc k \<in> set a" using U by (metis Suc_eq_plus1 nth_mem)
    then have "first_index a (U ! Suc k) = length (filter (\<lambda>x. x < U ! Suc k) a)"
      using assms(1) by (intro first_index_sorted)
    also have "\<dots> = length (filter (\<lambda>x. x \<le> U ! k) a)"
      using next_unique_filter[OF U, of k] True by simp
    finally show ?thesis using True by simp
  next
    case False
    with k have "Suc k = length U" by simp
    from last_unique_filter[OF U(1) U(3) this] False show ?thesis by simp
  qed
  have "filter (\<lambda>x. x = U ! k) a \<noteq> []" using mem by (simp add: filter_empty_conv)
  then show "length (filter (\<lambda>x. x < U ! k) a) < length (filter (\<lambda>x. x \<le> U ! k) a)"
    using length_filter_le_split[of "\<lambda>x. x" "U ! k" a] by simp
qed

lemma reduceat_segment_with:
  fixes key :: "nat \<Rightarrow> 'k::linorder"
  assumes "sorted (map key s)" and "k < length (sort (remdups (map key s)))"
  defines "U \<equiv> sort (remdups (map key s))"
  defines "ui \<equiv> map (first_index (map key s)) U"
  shows "(let lo = ui ! k; hi = (if k + 1 < length ui then ui ! (k + 1) else length s)
          in if lo < hi then g (take (hi - lo) (drop lo (map f s))) else map f s ! lo) =
         g (map f (filter (\<lambda>i. key i = U ! k) s))"
proof -
  let ?a = "map key s"
  have k: "k < length U" using assms(2) by (simp add: U_def)
  note sb = segment_bounds[OF assms(1,2), folded U_def]
  have lo: "ui ! k = length (filter (\<lambda>i. key i < U ! k) s)"
    using sb(1) k by (simp add: ui_def length_filter_map comp_def)
  have hi: "(if k + 1 < length ui then ui ! (k + 1) else length s) =
            length (filter (\<lambda>i. key i \<le> U ! k) s)"
    using sb(2) k by (auto simp: ui_def length_filter_map comp_def split: if_splits)
  have lt: "length (filter (\<lambda>i. key i < U ! k) s) < length (filter (\<lambda>i. key i \<le> U ! k) s)"
    using sb(3) by (simp add: length_filter_map comp_def)
  have "take (length (filter (\<lambda>i. key i \<le> U ! k) s) - length (filter (\<lambda>i. key i < U ! k) s))
          (drop (length (filter (\<lambda>i. key i < U ! k) s)) (map f s)) =
        map f (filter (\<lambda>i. key i = U ! k) s)"
    using arg_cong[OF sorted_key_segment[OF assms(1), of "U ! k"], of "map f"]
    by (simp add: take_map drop_map)
  with lo hi lt show ?thesis by (simp add: Let_def del: One_nat_def)
qed

subsection \<open>The sums of the groups\<close>

lemma take_rows_ok:
  "list_all (\<lambda>i. i < nrows A) idx \<Longrightarrow>
   take_rows A idx = Inr \<lparr>ncols = ncols A, rows = map (\<lambda>i. rows A ! i) idx\<rparr>"
  by (simp add: take_rows_def)

lemma add_reduceat_with_sorted:
  fixes key :: "nat \<Rightarrow> 'k::linorder"
  assumes "sorted (map key s)"
  defines "U \<equiv> sort (remdups (map key s))"
  shows "add_reduceat_with ar \<lparr>ncols = m, rows = map f s\<rparr> (map (first_index (map key s)) U) =
           Inr \<lparr>ncols = m, rows = map (\<lambda>v. add_reduce_with ar (map f (filter (\<lambda>i. key i = v) s))) U\<rparr>"
proof -
  let ?ui = "map (first_index (map key s)) U"
  let ?A = "\<lparr>ncols = m, rows = map f s\<rparr>"
  have U: "set U = set (map key s)" by (simp add: U_def)
  have ok: "list_all (\<lambda>i. i < nrows ?A) ?ui"
    using U first_index_less[of _ "map key s"] by (auto simp: list_all_iff nrows_def)
  have "map (\<lambda>k. let lo = ?ui ! k;
                     hi = (if k + 1 < length ?ui then ?ui ! (k + 1) else nrows ?A)
                 in if lo < hi then add_reduce_with ar (take (hi - lo) (drop lo (rows ?A)))
                    else rows ?A ! lo) [0..<length ?ui] =
        map (\<lambda>k. add_reduce_with ar (map f (filter (\<lambda>i. key i = U ! k) s))) [0..<length U]"
  proof (rule map_cong)
    show "[0..<length ?ui] = [0..<length U]" by simp
    fix k assume "k \<in> set [0..<length U]"
    then have k: "k < length (sort (remdups (map key s)))" by (simp add: U_def)
    from reduceat_segment_with[OF assms(1) k, where f = f and g = "add_reduce_with ar", folded U_def]
    show "(let lo = ?ui ! k;
               hi = (if k + 1 < length ?ui then ?ui ! (k + 1) else nrows ?A)
           in if lo < hi then add_reduce_with ar (take (hi - lo) (drop lo (rows ?A)))
              else rows ?A ! lo) = add_reduce_with ar (map f (filter (\<lambda>i. key i = U ! k) s))"
      by (simp only: nrows_def mat.select_convs length_map)
  qed
  also have "\<dots> = map (\<lambda>v. add_reduce_with ar (map f (filter (\<lambda>i. key i = v) s))) U"
    by (rule nth_equalityI) simp_all
  finally show ?thesis using ok by (simp add: add_reduceat_with_def)
qed

subsection \<open>One pass takes the group means away\<close>

text \<open>
  The next lemma is about any permutation \<open>s\<close> that sorts the column of IDs and any \<open>u\<close>
  that undoes it: the rows of a group are added in the order in which \<open>s\<close> lists them.
\<close>

lemma ordered_group_total:
  fixes c :: "'k::linorder list"
  assumes M: "rectangular M" "nrows M = length c"
    and s: "mset s = mset [0..<length c]"
    and i: "i < length c" and j: "j < ncols M"
  shows "add_reduce_with ar (map (\<lambda>x. rows M ! x) (filter (\<lambda>x. c ! x = c ! i) s)) ! j =
         reduce_with ar (map (\<lambda>x. col M j ! x) (ordered_group s c (c ! i)))"
proof -
  note sp = perm_upt_props[OF s]
  let ?blk = "map (\<lambda>x. rows M ! x) (filter (\<lambda>x. c ! x = c ! i) s)"
  have "i \<in> set s" using sp i by simp
  then have ne: "?blk \<noteq> []" by (auto simp: filter_empty_conv)
  have len: "\<forall>r\<in>set ?blk. length r = ncols M"
    using M sp by (auto simp: rectangular_def list_all_iff nrows_def)
  have "add_reduce_with ar ?blk ! j = reduce_with ar (map (\<lambda>r. r ! j) ?blk)"
    using add_reduce_with_nth[OF ne len j] .
  also have "map (\<lambda>r. r ! j) ?blk = map (\<lambda>x. rows M ! x ! j) (filter (\<lambda>x. c ! x = c ! i) s)"
    by (simp add: comp_def)
  also have "\<dots> = map (\<lambda>x. col M j ! x) (ordered_group s c (c ! i))"
    unfolding ordered_group_def
    by (rule map_cong) (use M sp in \<open>auto simp: col_def nrows_def\<close>)
  finally show ?thesis .
qed

lemma ordered_group_count:
  "count_list (map (\<lambda>x. c ! x) s) v = length (ordered_group s c v)"
  by (simp add: count_list_eq_length_filter length_filter_map comp_def eq_commute ordered_group_def)

lemma demean_step_with_one_way:
  fixes c :: "'k::linorder list"
  assumes M: "rectangular M" "nrows M = length c"
    and s: "mset s = mset [0..<length c]" "sorted (map (\<lambda>i. c ! i) s)"
    and u: "length u = length c" "\<forall>r<length c. u ! r < length c \<and> s ! (u ! r) = r"
  shows "demean_step_with ar (s, u, unique_info (map (\<lambda>i. c ! i) s)) M =
           Inr (one_way_demeaned_with ar s c M)"
proof -
  let ?n = "length c" and ?m = "ncols M"
  let ?key = "\<lambda>i. c ! i"
  let ?a = "map ?key s"
  let ?U = "sort (remdups ?a)"
  let ?ui = "map (first_index ?a) ?U"
  let ?inv = "map (first_index ?U) ?a"
  let ?cnts = "map (count_list ?a) ?U"
  note sp = perm_upt_props[OF s(1)]
  have seta: "set ?a = set c"
    using sp by (auto simp: in_set_conv_nth)
  have U: "set ?U = set c" "distinct ?U" using seta by simp_all
  let ?B = "\<lparr>ncols = ?m, rows = map (\<lambda>i. rows M ! i) s\<rparr>"
  have 1: "take_rows M s = Inr ?B"
    using sp M by (intro take_rows_ok) (simp add: list_all_iff)
  let ?T = "\<lparr>ncols = ?m, rows = map (\<lambda>v. add_reduce_with ar (map (\<lambda>i. rows M ! i) (filter (\<lambda>i. c ! i = v) s))) ?U\<rparr>"
  have 2: "add_reduceat_with ar ?B ?ui = Inr ?T"
    by (rule add_reduceat_with_sorted[OF s(2)])
  let ?cv = "column_vector (map (fcount ar) ?cnts)"
  let ?means = "mk_mat (length ?U) ?m (\<lambda>k j. fdiv ar (bget ?T k j) (bget ?cv k j))"
  have 3: "broadcast (fdiv ar) ?T ?cv = Inr ?means"
    by (simp add: broadcast_def nrows_def column_vector_def)
  let ?P = "\<lparr>ncols = ?m, rows = map (\<lambda>i. rows ?means ! i) ?inv\<rparr>"
  have 4: "take_rows ?means ?inv = Inr ?P"
  proof -
    have "list_all (\<lambda>i. i < nrows ?means) ?inv"
      using seta U first_index_less[of _ ?U] by (auto simp: list_all_iff)
    from take_rows_ok[OF this] show ?thesis by simp
  qed
  let ?R = "\<lparr>ncols = ?m, rows = map (\<lambda>i. rows ?P ! i) u\<rparr>"
  have 5: "take_rows ?P u = Inr ?R"
  proof -
    have "list_all (\<lambda>i. i < nrows ?P) u"
      using u sp by (auto simp: list_all_length nrows_def)
    from take_rows_ok[OF this] show ?thesis by simp
  qed
  have shR: "nrows ?R = nrows M" "ncols ?R = ncols M"
    using u M by (simp_all add: nrows_def)
  have 6: "isub_with ar M ?R =
             Inr (mk_mat (nrows M) ?m (\<lambda>i j. fsub ar (rows M ! i ! j) (rows ?R ! i ! j)))"
    using shR by (simp add: isub_with_def broadcast_same_shape seq_def)
  have entry: "rows ?R ! i ! j = group_mean_with ar s c (c ! i) (col M j)"
    if i: "i < ?n" and j: "j < ?m" for i j
  proof -
    from u i have ui: "u ! i < ?n" "s ! (u ! i) = i" by auto
    let ?q = "first_index ?U (c ! i)"
    have ci: "c ! i \<in> set ?U" using U i by simp
    have q: "?q < length ?U" "?U ! ?q = c ! i"
      by (rule first_index_less[OF ci], rule nth_first_index[OF ci])
    have "rows ?R ! i = rows ?P ! (u ! i)" using u i by simp
    also have "\<dots> = rows ?means ! ?q" using ui sp by simp
    finally have "rows ?R ! i ! j = fdiv ar (bget ?T ?q j) (bget ?cv ?q j)"
      using q(1) j by (simp add: mk_mat_nth del: set_sort set_remdups sort_key_simps)
    moreover have "bget ?T ?q j =
        reduce_with ar (map (\<lambda>x. col M j ! x) (ordered_group s c (c ! i)))"
    proof -
      have "bget ?T ?q j = rows ?T ! ?q ! j"
        using q(1) j by (intro bget_in_range) (simp_all add: nrows_def)
      also have "\<dots> = add_reduce_with ar (map (\<lambda>x. rows M ! x) (filter (\<lambda>x. c ! x = c ! i) s)) ! j"
        using q by simp
      finally show ?thesis using ordered_group_total[OF M s(1) i j] by simp
    qed
    moreover have "bget ?cv ?q j = fcount ar (length (ordered_group s c (c ! i)))"
    proof -
      have "bget ?cv ?q j = rows ?cv ! ?q ! 0"
        using q(1) by (auto simp: bget_def column_vector_def nrows_def)
      also have "\<dots> = fcount ar (count_list ?a (?U ! ?q))"
        using q(1) by (simp add: column_vector_def)
      finally show ?thesis using q(2) ordered_group_count[of c s] by simp
    qed
    ultimately show ?thesis by (simp add: group_mean_with_def)
  qed
  have "mk_mat (nrows M) ?m (\<lambda>i j. fsub ar (rows M ! i ! j) (rows ?R ! i ! j)) =
        one_way_demeaned_with ar s c M"
    unfolding one_way_demeaned_with_def using M entry by (intro mk_mat_cong) simp
  with 1 2 3 4 5 6 show ?thesis
    by (simp add: demean_step_with_def unique_info_def Let_def seq_def
        del: set_sort set_remdups sort_key_simps)
qed

lemma demeaning_info_one_column:
  assumes "ncols ids = 1"
  shows "demeaning_info ids =
           [(argsort (col ids 0), argsort (argsort (col ids 0)),
             unique_info (map (\<lambda>i. col ids 0 ! i) (argsort (col ids 0))))]"
  using assms by (simp add: demeaning_info_def T_def Let_def)

lemma demean_with_one_column:
  fixes ids :: "'b::linorder mat"
  assumes "ncols ids = 1" and "rectangular matrix" and "nrows matrix = nrows ids"
  shows "demean_with ar (demeaning_info ids) matrix =
           Inr (one_way_demeaned_with ar (argsort (col ids 0)) (col ids 0) matrix)"
proof -
  let ?c = "col ids 0"
  have n: "nrows matrix = length ?c" using assms(3) by (simp add: col_def nrows_def)
  have s: "mset (argsort ?c) = mset [0..<length ?c]" by (rule mset_argsort)
  have len: "length (argsort (argsort ?c)) = length ?c"
    using perm_upt_props(1)[OF mset_argsort] by metis
  have inv: "\<forall>r<length ?c. argsort (argsort ?c) ! r < length ?c \<and>
                            argsort ?c ! (argsort (argsort ?c) ! r) = r"
    using argsort_inverse[OF s] by blast
  from demean_step_with_one_way[OF assms(2) n s sorted_argsort len inv]
  show ?thesis by (simp add: demeaning_info_one_column[OF assms(1)] seq_def)
qed

subsection \<open>A column in double precision\<close>




subsection \<open>One column of IDs\<close>




subsection \<open>Exact arithmetic\<close>

text \<open>
  With the arithmetic \<open>exact\<close> the routine with a parameter is the routine of the section
  on \<open>iteratively_demean\<close>, the order of the rows of a group does not matter, and for a
  matrix of finite entries the group means of the result are 0. This is what is left of
  the last part of the claim when nothing is rounded.
\<close>

lemma exact_simps:
  "fadd exact = (+)" "fsub exact = (-)" "fmul exact = (*)" "fdiv exact = (/)"
  "fcount exact = (\<lambda>n. Fin (real n))"
  by (simp_all add: exact_def)

lemma add_reduce_with_exact: "add_reduce_with exact = add_reduce"
  by (rule ext) (simp add: add_reduce_with_def add_reduce_def exact_simps)

lemma add_reduceat_with_exact: "add_reduceat_with exact A idx = add_reduceat A idx"
  unfolding add_reduceat_with_def add_reduceat_def add_reduce_with_exact by (rule refl)

lemma isub_with_exact: "isub_with exact A B = isub A B"
  by (simp add: isub_with_def isub_def exact_simps)

lemma demean_step_with_exact: "demean_step_with exact info M = demean_step info M"
  by (cases info)
     (simp add: demean_step_with_def demean_step_def add_reduceat_with_exact isub_with_exact
        exact_simps)

lemma demean_with_exact: "demean_with exact infos M = demean infos M"
  by (induction infos arbitrary: M) (simp_all add: demean_step_with_exact seq_def split: sum.splits)

lemma iteratively_demean_with_exact:
  "iteratively_demean_with exact matrix ids iteration = iteratively_demean matrix ids iteration"
proof -
  have "demean_with exact (demeaning_info ids) = demean (demeaning_info ids)"
    by (rule ext) (rule demean_with_exact)
  then show ?thesis by (simp add: iteratively_demean_with_def iteratively_demean_def Let_def)
qed

lemma foldl_add_sum_list: "foldl (+) (a::fnum) xs = a + sum_list xs"
  by (induction xs arbitrary: a) (simp_all add: add.assoc)

lemma reduce_with_exact: "xs \<noteq> [] \<Longrightarrow> reduce_with exact xs = sum_list xs"
  by (cases xs) (simp_all add: reduce_with_def exact_simps foldl_add_sum_list)

lemma sum_list_filter_perm:
  fixes f :: "nat \<Rightarrow> fnum"
  assumes "mset s = mset t"
  shows "sum_list (map f (filter P s)) = sum_list (map f (filter P t))"
proof -
  have "mset (map f (filter P s)) = mset (map f (filter P t))"
    using assms by (metis mset_filter mset_map)
  then show ?thesis by (metis sum_mset_sum_list)
qed

lemma length_filter_perm:
  assumes "mset s = mset t"
  shows "length (filter P s) = length (filter P t)"
  using assms by (metis mset_filter size_mset)

lemma group_rows_props:
  "i \<in> set (group_rows c v) \<longleftrightarrow> i < length c \<and> c ! i = v"
  by (auto simp: group_rows_def)

lemma group_rows_nonempty: "v \<in> set c \<Longrightarrow> group_rows c v \<noteq> []"
  by (auto simp: group_rows_def filter_empty_conv in_set_conv_nth)

lemma group_mean_with_exact:
  assumes "mset s = mset [0..<length c]" and "v \<in> set c"
  shows "group_mean_with exact s c v xs = group_mean c v xs"
proof -
  have ne: "group_rows c v \<noteq> []" by (rule group_rows_nonempty[OF assms(2)])
  have len: "length (ordered_group s c v) = length (group_rows c v)"
    unfolding ordered_group_def group_rows_def by (rule length_filter_perm[OF assms(1)])
  with ne have "map (\<lambda>i. xs ! i) (ordered_group s c v) \<noteq> []" by auto
  then have "reduce_with exact (map (\<lambda>i. xs ! i) (ordered_group s c v)) =
             sum_list (map (\<lambda>i. xs ! i) (ordered_group s c v))"
    by (rule reduce_with_exact)
  also have "\<dots> = sum_list (map (\<lambda>i. xs ! i) (group_rows c v))"
    unfolding ordered_group_def group_rows_def by (rule sum_list_filter_perm[OF assms(1)])
  finally show ?thesis by (simp add: group_mean_with_def group_mean_def len exact_simps)
qed

lemma one_way_demeaned_with_exact:
  assumes "nrows M = length c" and "mset s = mset [0..<length c]"
  shows "one_way_demeaned_with exact s c M = one_way_demeaned c M"
  unfolding one_way_demeaned_with_def one_way_demeaned_def
  using assms by (intro mk_mat_cong) (simp add: exact_simps group_mean_with_exact)

lemma demean_one_column:
  fixes ids :: "'b::linorder mat"
  assumes "ncols ids = 1" and "rectangular matrix" and "nrows matrix = nrows ids"
  shows "demean (demeaning_info ids) matrix = Inr (one_way_demeaned (col ids 0) matrix)"
proof -
  have n: "nrows matrix = length (col ids 0)" using assms(3) by (simp add: col_def nrows_def)
  from demean_with_one_column[OF assms, of exact]
  show ?thesis
    by (simp add: demean_with_exact one_way_demeaned_with_exact[OF n mset_argsort])
qed

lemma Fin_real_of: "is_finite x \<Longrightarrow> Fin (real_of x) = x"
  by (cases x) simp_all

lemma sum_list_Fin: "sum_list (map (\<lambda>i. Fin (f i)) xs) = Fin (sum_list (map f xs))"
  by (induction xs) (simp_all add: zero_fnum_def)

lemma sum_list_shift:
  fixes f :: "nat \<Rightarrow> real"
  shows "sum_list (map (\<lambda>i. f i - d) xs) = sum_list (map f xs) - real (length xs) * d"
  by (induction xs) (simp_all add: algebra_simps)

lemma group_mean_demeaned:
  assumes M: "rectangular M" "nrows M = length c" "finite_mat M"
    and v: "v \<in> set c" and j: "j < ncols M"
  shows "group_mean c v (col (one_way_demeaned c M) j) = Fin 0"
proof -
  let ?G = "group_rows c v"
  let ?x = "\<lambda>i. real_of (rows M ! i ! j)"
  let ?k = "real (length ?G)"
  let ?S = "sum_list (map ?x ?G)"
  have k: "?k \<noteq> 0" using group_rows_nonempty[OF v] by simp
  have fin: "rows M ! i ! j = Fin (?x i)" if "i < length c" for i
  proof -
    have "rows M ! i \<in> set (rows M)" using that M by (simp add: nrows_def)
    then have "length (rows M ! i) = ncols M" "list_all is_finite (rows M ! i)"
      using M by (auto simp: rectangular_def finite_mat_def list_all_iff)
    then have "is_finite (rows M ! i ! j)" using j by (simp add: list_all_length)
    then show ?thesis by (simp add: Fin_real_of)
  qed
  have colM: "map (\<lambda>i. col M j ! i) ?G = map (\<lambda>i. Fin (?x i)) ?G"
    using M fin by (intro map_cong) (auto simp: group_rows_props col_def nrows_def)
  have gm: "group_mean c v (col M j) = Fin (?S / ?k)"
    using k by (simp add: group_mean_def colM sum_list_Fin)
  have colD: "map (\<lambda>i. col (one_way_demeaned c M) j ! i) ?G = map (\<lambda>i. Fin (?x i - ?S / ?k)) ?G"
  proof (rule map_cong[OF refl])
    fix i assume "i \<in> set ?G"
    then have i: "i < length c" "c ! i = v" by (simp_all add: group_rows_props)
    then have "col (one_way_demeaned c M) j ! i = rows (one_way_demeaned c M) ! i ! j"
      using M by (simp add: col_def one_way_demeaned_def mk_mat_def)
    also have "\<dots> = rows M ! i ! j - group_mean c (c ! i) (col M j)"
      using i j M by (simp add: one_way_demeaned_def mk_mat_nth)
    also have "\<dots> = Fin (?x i) - Fin (?S / ?k)"
    proof (rule arg_cong2[where f = "(-)"])
      show "rows M ! i ! j = Fin (?x i)" by (rule fin[OF i(1)])
      show "group_mean c (c ! i) (col M j) = Fin (?S / ?k)" unfolding i(2) by (rule gm)
    qed
    also have "\<dots> = Fin (?x i - ?S / ?k)"
      by (simp add: minus_fnum_def)
    finally show "col (one_way_demeaned c M) j ! i = Fin (?x i - ?S / ?k)" .
  qed
  have "group_mean c v (col (one_way_demeaned c M) j) =
        Fin (sum_list (map (\<lambda>i. ?x i - ?S / ?k) ?G)) / Fin ?k"
    by (simp add: group_mean_def colD sum_list_Fin)
  also have "sum_list (map (\<lambda>i. ?x i - ?S / ?k) ?G) = 0"
    using k by (simp add: sum_list_shift)
  finally show ?thesis using k by simp
qed

lemma one_column_exact_mean:
  fixes ids :: "'b::linorder mat"
  assumes "ncols ids = 1" and "rectangular matrix" and "nrows matrix = nrows ids"
    and "finite_mat matrix"
  shows "iteratively_demean_with exact matrix ids iteration =
           Inr (one_way_demeaned (col ids 0) matrix, {})"
    and "iteratively_demean matrix ids iteration = Inr (one_way_demeaned (col ids 0) matrix, {})"
    and "\<forall>v\<in>set (col ids 0). \<forall>j<ncols matrix.
           group_mean (col ids 0) v (col (one_way_demeaned (col ids 0) matrix) j) = Fin 0"
proof -
  have d: "demean (demeaning_info ids) matrix = Inr (one_way_demeaned (col ids 0) matrix)"
    using assms(1-3) by (rule demean_one_column)
  then show 1: "iteratively_demean matrix ids iteration =
                  Inr (one_way_demeaned (col ids 0) matrix, {})"
    using assms(1) by (simp add: iteratively_demean_def seq_def)
  then show "iteratively_demean_with exact matrix ids iteration =
               Inr (one_way_demeaned (col ids 0) matrix, {})"
    by (simp add: iteratively_demean_with_exact)
  have "nrows matrix = length (col ids 0)"
    using assms(3) by (simp add: col_def nrows_def)
  then show "\<forall>v\<in>set (col ids 0). \<forall>j<ncols matrix.
           group_mean (col ids 0) v (col (one_way_demeaned (col ids 0) matrix) j) = Fin 0"
    using assms(2,4) by (intro ballI allI impI group_mean_demeaned)
qed

end
